theory Spec2Isabelle
  imports Main
begin

section \<open>Strings\<close>

text \<open>
  Python strings are modelled as HOL strings (lists of 8-bit characters); the model covers
  ASCII text, on which \<^verbatim>\<open>str.lower\<close> only touches the letters A to Z.
\<close>

definition lower_char :: "char \<Rightarrow> char" where
  "lower_char c =
     (if 65 \<le> (of_char c :: nat) \<and> (of_char c :: nat) \<le> 90
      then char_of ((of_char c :: nat) + 32) else c)"

definition lower :: "string \<Rightarrow> string" where
  "lower s = map lower_char s"

text \<open>\<^verbatim>\<open>s.startswith(p)\<close>\<close>

fun startswith :: "string \<Rightarrow> string \<Rightarrow> bool" where
  "startswith s [] = True"
| "startswith [] (p # ps) = False"
| "startswith (c # s) (p # ps) = (c = p \<and> startswith s ps)"

text \<open>\<^verbatim>\<open>needle in hay\<close> on strings: \<open>contains hay needle\<close>.\<close>

fun contains :: "string \<Rightarrow> string \<Rightarrow> bool" where
  "contains [] n = (n = [])"
| "contains (c # s) n = (startswith (c # s) n \<or> contains s n)"

text \<open>\<^verbatim>\<open>sep.join(xs)\<close>\<close>

fun join :: "string \<Rightarrow> string list \<Rightarrow> string" where
  "join sep [] = []"
| "join sep [x] = x"
| "join sep (x # y # ys) = x @ sep @ join sep (y # ys)"

text \<open>\<^verbatim>\<open>str(n)\<close> for a non-negative integer, and for any integer.\<close>

definition digit_char :: "nat \<Rightarrow> char" where
  "digit_char d = char_of (48 + d)"

fun str_nat :: "nat \<Rightarrow> string" where
  "str_nat n = (if n < 10 then [digit_char n] else str_nat (n div 10) @ [digit_char (n mod 10)])"

declare str_nat.simps [simp del]

definition str_int :: "int \<Rightarrow> string" where
  "str_int i = (if i < 0 then CHR ''-'' # str_nat (nat (- i)) else str_nat (nat i))"

section \<open>Errors\<close>

text \<open>
  The exceptions the modelled functions can raise: \<^verbatim>\<open>re.error\<close> from
  \<^verbatim>\<open>re.search\<close> on an invalid pattern, and \<^verbatim>\<open>KeyError\<close> from
  \<^verbatim>\<open>comp_def["skills"]\<close>. \<open>Unsupported\<close> is not a Python exception: the
  concrete matcher \<open>re_search\<close> below returns it on a pattern outside the fragment of the
  regular-expression syntax that it models.
\<close>

datatype error = ReError | KeyError | Unsupported

section \<open>Regular expressions\<close>

text \<open>
  The source calls the library function \<^verbatim>\<open>re.search(pattern, text)\<close> and uses its
  result as a boolean. The functions of the program take the matcher as a parameter
  \<open>rs\<close> of type \<open>matcher\<close>, so that the general theorems hold for every behaviour of the
  library. For concrete runs, \<open>re_search\<close> models \<^verbatim>\<open>re.search\<close> on patterns made
  of literal characters, \<^verbatim>\<open>.\<close>, a postfix \<^verbatim>\<open>*\<close> on a single character or dot, a
  leading \<^verbatim>\<open>^\<close> and a trailing \<^verbatim>\<open>$\<close>.
\<close>

type_synonym matcher = "string \<Rightarrow> string \<Rightarrow> error + bool"

datatype atom = Lit char | Dot

datatype item = One atom | Star atom

fun atom_ok :: "atom \<Rightarrow> char \<Rightarrow> bool" where
  "atom_ok (Lit c) d = (c = d)"
| "atom_ok Dot d = (d \<noteq> CHR 0x0A)"

text \<open>
  \<open>match_here its e s\<close>: the items match a prefix of \<open>s\<close>; with \<open>e\<close> (a trailing
  \<^verbatim>\<open>$\<close>) the match must end at the end of the text or before a final newline.
\<close>

fun match_here :: "item list \<Rightarrow> bool \<Rightarrow> string \<Rightarrow> bool" where
  "match_here [] e s = (if e then s = [] \<or> s = [CHR 0x0A] else True)"
| "match_here (One a # its) e [] = False"
| "match_here (One a # its) e (c # cs) = (atom_ok a c \<and> match_here its e cs)"
| "match_here (Star a # its) e [] = match_here its e []"
| "match_here (Star a # its) e (c # cs) =
     (match_here its e (c # cs) \<or> (atom_ok a c \<and> match_here (Star a # its) e cs))"

fun search_from :: "item list \<Rightarrow> bool \<Rightarrow> string \<Rightarrow> bool" where
  "search_from its e [] = match_here its e []"
| "search_from its e (c # cs) = (match_here its e (c # cs) \<or> search_from its e cs)"

definition unsupported_chars :: "char list" where
  "unsupported_chars = ''+?{}[]()|^$'' @ [CHR 0x5C]"

fun parse_items :: "string \<Rightarrow> error + item list" where
  "parse_items [] = Inr []"
| "parse_items [c] =
     (if c = CHR ''*'' then Inl ReError
      else if List.member unsupported_chars c then Inl Unsupported
      else Inr [One (if c = CHR ''.'' then Dot else Lit c)])"
| "parse_items (c # d # cs) =
     (if c = CHR ''*'' then Inl ReError
      else if List.member unsupported_chars c then Inl Unsupported
      else if d = CHR ''*''
        then (case parse_items cs of Inl e \<Rightarrow> Inl e
              | Inr its \<Rightarrow> Inr (Star (if c = CHR ''.'' then Dot else Lit c) # its))
        else (case parse_items (d # cs) of Inl e \<Rightarrow> Inl e
              | Inr its \<Rightarrow> Inr (One (if c = CHR ''.'' then Dot else Lit c) # its)))"

definition re_search :: matcher where
  "re_search p s =
     (let anchored = (p \<noteq> [] \<and> hd p = CHR ''^'');
          p1 = (if anchored then tl p else p);
          e = (p1 \<noteq> [] \<and> last p1 = CHR ''$'');
          p2 = (if e then butlast p1 else p1)
      in case parse_items p2 of
           Inl err \<Rightarrow> Inl err
         | Inr its \<Rightarrow> Inr (if anchored then match_here its e s else search_from its e s))"

section \<open>Section payloads\<close>

text \<open>
  A section payload is what \<^verbatim>\<open>json.load\<close> returns: \<open>JNull\<close> is Python's
  \<^verbatim>\<open>None\<close>, which is also the value of \<^verbatim>\<open>sdp_section\<close> when there is no
  section file. JSON numbers are integers here; payloads holding floating-point numbers
  are outside the model.
\<close>

datatype json =
    JNull
  | JBool bool
  | JInt int
  | JStr string
  | JArr "json list"
  | JObj "(string \<times> json) list"

text \<open>Python truthiness, as tested by \<^verbatim>\<open>if sdp_section:\<close>.\<close>

fun truthy :: "json \<Rightarrow> bool" where
  "truthy JNull = False"
| "truthy (JBool b) = b"
| "truthy (JInt i) = (i \<noteq> 0)"
| "truthy (JStr s) = (s \<noteq> [])"
| "truthy (JArr xs) = (xs \<noteq> [])"
| "truthy (JObj kvs) = (kvs \<noteq> [])"

text \<open>
  \<^verbatim>\<open>json.dumps\<close> with its default settings is a library function too, taken as a
  parameter \<open>jd\<close>. \<open>json_dumps\<close> models it for concrete runs: separators
  \<^verbatim>\<open>", "\<close> and \<^verbatim>\<open>": "\<close>, and strings escaped as \<^verbatim>\<open>ensure_ascii\<close> does.
\<close>

definition hex_digit :: "nat \<Rightarrow> char" where
  "hex_digit d = (if d < 10 then char_of (48 + d) else char_of (87 + d))"

definition escape_char :: "char \<Rightarrow> string" where
  "escape_char c =
     (if c = CHR 0x22 then [CHR 0x5C, CHR 0x22]
      else if c = CHR 0x5C then [CHR 0x5C, CHR 0x5C]
      else if c = CHR 0x0A then [CHR 0x5C, CHR ''n'']
      else if c = CHR 0x0D then [CHR 0x5C, CHR ''r'']
      else if c = CHR 0x09 then [CHR 0x5C, CHR ''t'']
      else if c = CHR 0x08 then [CHR 0x5C, CHR ''b'']
      else if c = CHR 0x0C then [CHR 0x5C, CHR ''f'']
      else if 32 \<le> (of_char c :: nat) \<and> (of_char c :: nat) \<le> 126 then [c]
      else [CHR 0x5C, CHR ''u'', CHR ''0'', CHR ''0'',
            hex_digit ((of_char c :: nat) div 16), hex_digit ((of_char c :: nat) mod 16)])"

definition quote :: "string \<Rightarrow> string" where
  "quote s = [CHR 0x22] @ concat (map escape_char s) @ [CHR 0x22]"

fun json_dumps :: "json \<Rightarrow> string" where
  "json_dumps JNull = ''null''"
| "json_dumps (JBool b) = (if b then ''true'' else ''false'')"
| "json_dumps (JInt i) = str_int i"
| "json_dumps (JStr s) = quote s"
| "json_dumps (JArr xs) = ''['' @ join '', '' (map json_dumps xs) @ '']''"
| "json_dumps (JObj kvs) =
     ''{'' @ join '', '' (map (\<lambda>kv. quote (fst kv) @ '': '' @ json_dumps (snd kv)) kvs) @ ''}''"

section \<open>The skills registry\<close>

text \<open>
  The registry is the value that \<^verbatim>\<open>yaml.safe_load\<close> returns. A key that may be
  missing from a dictionary is an optional field (\<open>None\<close>: the key is absent). The two
  dictionaries \<^verbatim>\<open>registry["skills"]\<close> and \<^verbatim>\<open>registry["composites"]\<close> are
  association lists in insertion order, which is the order in which Python iterates over
  them; a dictionary has no repeated key.
\<close>

record trigger_set =
  t_keywords :: "string list option"
  t_goal_patterns :: "string list option"
  t_file_types :: "string list option"
  t_section_types :: "string list option"

record skill_def =
  triggers :: "trigger_set option"
  path :: "string option"

record composite_def =
  c_triggers :: "string list option"
  c_skills :: "string list option"
  c_description :: "string option"

record registry =
  reg_skills :: "(string \<times> skill_def) list"
  reg_composites :: "(string \<times> composite_def) list"

text \<open>\<^verbatim>\<open>d.get(key, [])\<close>\<close>

definition get_list :: "'a list option \<Rightarrow> 'a list" where
  "get_list v = (case v of None \<Rightarrow> [] | Some xs \<Rightarrow> xs)"

text \<open>\<^verbatim>\<open>skill_def.get("triggers", {})\<close> followed by \<^verbatim>\<open>triggers.get(category, [])\<close>\<close>

definition trigger_list ::
  "(trigger_set \<Rightarrow> string list option) \<Rightarrow> skill_def \<Rightarrow> string list" where
  "trigger_list category skill =
     (case triggers skill of None \<Rightarrow> [] | Some t \<Rightarrow> get_list (category t))"

section \<open>Signal scorer\<close>

record score_result =
  score :: int
  reasons :: "string list"

text \<open>
  Each of the five numbered blocks of \<^verbatim>\<open>score_skill\<close> adds to \<^verbatim>\<open>score\<close> and
  appends to \<^verbatim>\<open>reasons\<close>; the model gives each block as the pair of what it adds
  and what it appends.
\<close>

type_synonym contribution = "int \<times> string list"

text \<open>1. Keyword matching: one point per keyword found in the lowered goal text.\<close>

definition keyword_hits :: "string list \<Rightarrow> string \<Rightarrow> string list" where
  "keyword_hits kws text = filter (\<lambda>kw. contains (lower text) (lower kw)) kws"

definition keyword_signal :: "string list \<Rightarrow> string \<Rightarrow> contribution" where
  "keyword_signal kws goal_text =
     (let hits = keyword_hits kws goal_text
      in (int (length hits),
          if hits = [] then [] else [''keywords: '' @ join '', '' (take 5 hits)]))"

text \<open>2. Goal pattern matching: the loop stops at the first pattern that matches.\<close>

fun first_match :: "matcher \<Rightarrow> string list \<Rightarrow> string \<Rightarrow> error + string option" where
  "first_match rs [] s = Inr None"
| "first_match rs (p # ps) s =
     (case rs p s of
        Inl e \<Rightarrow> Inl e
      | Inr hit \<Rightarrow> if hit then Inr (Some p) else first_match rs ps s)"

definition pattern_signal :: "matcher \<Rightarrow> string list \<Rightarrow> string \<Rightarrow> error + contribution" where
  "pattern_signal rs patterns goal_name =
     (case first_match rs patterns (lower goal_name) of
        Inl e \<Rightarrow> Inl e
      | Inr None \<Rightarrow> Inr (0, [])
      | Inr (Some p) \<Rightarrow> Inr (3, [''goal pattern: '' @ p]))"

text \<open>3. File type matching against the serialised section, first hit only.\<close>

definition file_type_signal :: "(json \<Rightarrow> string) \<Rightarrow> string list \<Rightarrow> json \<Rightarrow> contribution" where
  "file_type_signal jd fts sdp_section =
     (if truthy sdp_section
      then (case find (\<lambda>ft. contains (lower (jd sdp_section)) (lower ft)) fts of
              None \<Rightarrow> (0, [])
            | Some ft \<Rightarrow> (2, [''file type: '' @ ft]))
      else (0, []))"

text \<open>4. Section type wildcard.\<close>

definition wildcard_signal :: "string list \<Rightarrow> string \<Rightarrow> contribution" where
  "wildcard_signal sts goal_name =
     (if ''*'' \<in> set sts \<and> startswith goal_name ''build-''
      then (2, [''applies to all build-* goals''])
      else (0, []))"

text \<open>5. Keyword hits in the serialised section.\<close>

definition section_keyword_hits :: "(json \<Rightarrow> string) \<Rightarrow> string list \<Rightarrow> json \<Rightarrow> nat" where
  "section_keyword_hits jd kws sdp_section =
     length (filter (\<lambda>kw. contains (lower (jd sdp_section)) (lower kw)) kws)"

definition density_signal :: "(json \<Rightarrow> string) \<Rightarrow> string list \<Rightarrow> json \<Rightarrow> contribution" where
  "density_signal jd kws sdp_section =
     (if truthy sdp_section
      then (let n = section_keyword_hits jd kws sdp_section
            in if n > 2 then (int n, [str_nat n @ '' keyword hits in SDP section''])
               else (0, []))
      else (0, []))"

definition score_skill ::
  "matcher \<Rightarrow> (json \<Rightarrow> string) \<Rightarrow> string \<Rightarrow> skill_def \<Rightarrow> string \<Rightarrow> string \<Rightarrow> json
     \<Rightarrow> error + score_result" where
  "score_skill rs jd skill_name skill goal_text goal_name sdp_section =
     (let kws = trigger_list t_keywords skill;
          c1 = keyword_signal kws goal_text
      in case pattern_signal rs (trigger_list t_goal_patterns skill) goal_name of
           Inl e \<Rightarrow> Inl e
         | Inr c2 \<Rightarrow>
             (let c3 = file_type_signal jd (trigger_list t_file_types skill) sdp_section;
                  c4 = wildcard_signal (trigger_list t_section_types skill) goal_name;
                  c5 = density_signal jd kws sdp_section
              in Inr \<lparr>score = fst c1 + fst c2 + fst c3 + fst c4 + fst c5,
                      reasons = snd c1 @ snd c2 @ snd c3 @ snd c4 @ snd c5\<rparr>))"

section \<open>Composite matcher\<close>

record composite_match =
  m_name :: string
  m_skills :: "string list"
  m_description :: string

text \<open>
  The inner loop of \<^verbatim>\<open>detect_composite_skills\<close>: the pattern is searched in the goal
  name first and, only when that fails, in the goal text.
\<close>

fun trigger_matches :: "matcher \<Rightarrow> string list \<Rightarrow> string \<Rightarrow> string \<Rightarrow> error + bool" where
  "trigger_matches rs [] gn gt = Inr False"
| "trigger_matches rs (p # ps) gn gt =
     (case rs p gn of
        Inl e \<Rightarrow> Inl e
      | Inr hit \<Rightarrow>
          if hit then Inr True
          else (case rs p gt of
                  Inl e \<Rightarrow> Inl e
                | Inr hit2 \<Rightarrow> if hit2 then Inr True else trigger_matches rs ps gn gt))"

fun detect_composite_skills ::
  "matcher \<Rightarrow> string \<Rightarrow> string \<Rightarrow> (string \<times> composite_def) list
     \<Rightarrow> error + composite_match list" where
  "detect_composite_skills rs goal_name goal_text [] = Inr []"
| "detect_composite_skills rs goal_name goal_text ((comp_name, comp_def) # rest) =
     (case trigger_matches rs (get_list (c_triggers comp_def)) (lower goal_name) (lower goal_text) of
        Inl e \<Rightarrow> Inl e
      | Inr hit \<Rightarrow>
          (case (if hit
                 then (case c_skills comp_def of
                         None \<Rightarrow> Inl KeyError
                       | Some ss \<Rightarrow>
                           Inr [\<lparr>m_name = comp_name, m_skills = ss,
                                 m_description =
                                   (case c_description comp_def of None \<Rightarrow> [] | Some d \<Rightarrow> d)\<rparr>])
                 else Inr []) of
             Inl e \<Rightarrow> Inl e
           | Inr m \<Rightarrow>
               (case detect_composite_skills rs goal_name goal_text rest of
                  Inl e \<Rightarrow> Inl e
                | Inr ms \<Rightarrow> Inr (m @ ms))))"

section \<open>Assignment resolver\<close>

record assigned_skill =
  a_name :: string
  a_path :: "string option"
  a_score :: int
  a_reasons :: "string list"
  a_has_skill_file :: bool

record assignment =
  goal :: string
  title :: string
  assigned_skills :: "assigned_skill list"
  composites :: "composite_match list"
  total_score :: int

text \<open>
  The goal file as \<^verbatim>\<open>parse_goal_frontmatter\<close> returns it and as
  \<^verbatim>\<open>write_goal_with_skills\<close> writes it back: the stem of its path, the body, and the
  frontmatter keys that \<^verbatim>\<open>assign_skills_to_goal\<close> reads or writes.
\<close>

record goal_file =
  g_name :: string
  g_title :: "string option"
  g_body :: string
  g_skills :: "string list option"
  g_skill_paths :: "string list option"
  g_skills_assigned :: "string option"

text \<open>\<^verbatim>\<open>f"{goal_name} {frontmatter.get('title', '')} {body}"\<close>\<close>

definition goal_text_of :: "goal_file \<Rightarrow> string" where
  "goal_text_of gf =
     g_name gf @ '' '' @ (case g_title gf of None \<Rightarrow> [] | Some t \<Rightarrow> t) @ '' '' @ g_body gf"

text \<open>The scoring loop: \<^verbatim>\<open>scores\<close> keeps the skills with a positive score.\<close>

fun score_all ::
  "matcher \<Rightarrow> (json \<Rightarrow> string) \<Rightarrow> string \<Rightarrow> string \<Rightarrow> json \<Rightarrow> (string \<times> skill_def) list
     \<Rightarrow> error + (string \<times> score_result) list" where
  "score_all rs jd goal_text goal_name sdp_section [] = Inr []"
| "score_all rs jd goal_text goal_name sdp_section ((skill_name, skill) # rest) =
     (case score_skill rs jd skill_name skill goal_text goal_name sdp_section of
        Inl e \<Rightarrow> Inl e
      | Inr result \<Rightarrow>
          (case score_all rs jd goal_text goal_name sdp_section rest of
             Inl e \<Rightarrow> Inl e
           | Inr scores \<Rightarrow> Inr (if score result > 0 then (skill_name, result) # scores else scores)))"

text \<open>\<^verbatim>\<open>skills_config.get(name, {}).get("path")\<close>\<close>

definition lookup_path :: "(string \<times> skill_def) list \<Rightarrow> string \<Rightarrow> string option" where
  "lookup_path skills_config name =
     (case map_of skills_config name of None \<Rightarrow> None | Some d \<Rightarrow> path d)"

text \<open>
  The first loop over \<^verbatim>\<open>sorted(scores.items(), key=..., reverse=True)\<close>: Python's
  sort is stable also with \<^verbatim>\<open>reverse=True\<close>, as is \<open>sort_key\<close> on the negated score.
\<close>

definition primary_entry :: "(string \<times> skill_def) list \<Rightarrow> string \<times> score_result \<Rightarrow> assigned_skill" where
  "primary_entry skills_config item =
     \<lparr>a_name = fst item, a_path = lookup_path skills_config (fst item),
      a_score = score (snd item), a_reasons = reasons (snd item),
      a_has_skill_file = (lookup_path skills_config (fst item) \<noteq> None)\<rparr>"

definition primary_skills ::
  "(string \<times> skill_def) list \<Rightarrow> (string \<times> score_result) list \<Rightarrow> assigned_skill list" where
  "primary_skills skills_config scores =
     map (primary_entry skills_config)
       (filter (\<lambda>item. score (snd item) \<ge> 2) (sort_key (\<lambda>item. - score (snd item)) scores))"

text \<open>The second loop: members of the matched composites that are not yet included.\<close>

definition composite_entry :: "(string \<times> skill_def) list \<Rightarrow> string \<Rightarrow> string \<Rightarrow> assigned_skill" where
  "composite_entry skills_config comp_name comp_skill =
     \<lparr>a_name = comp_skill, a_path = lookup_path skills_config comp_skill,
      a_score = 1, a_reasons = [''composite: '' @ comp_name],
      a_has_skill_file = (lookup_path skills_config comp_skill \<noteq> None)\<rparr>"

fun add_members ::
  "(string \<times> skill_def) list \<Rightarrow> string \<Rightarrow> string list \<Rightarrow> assigned_skill list
     \<Rightarrow> assigned_skill list" where
  "add_members skills_config comp_name [] acc = acc"
| "add_members skills_config comp_name (s # ss) acc =
     add_members skills_config comp_name ss
       (if s \<in> set (map a_name acc) then acc
        else acc @ [composite_entry skills_config comp_name s])"

fun add_composites ::
  "(string \<times> skill_def) list \<Rightarrow> composite_match list \<Rightarrow> assigned_skill list
     \<Rightarrow> assigned_skill list" where
  "add_composites skills_config [] acc = acc"
| "add_composites skills_config (cm # cms) acc =
     add_composites skills_config cms
       (add_members skills_config (m_name cm) (m_skills cm) acc)"

text \<open>
  \<^verbatim>\<open>assign_skills_to_goal\<close> on a parsed goal file and an already loaded section
  payload. It returns the assignment and the goal file it leaves behind; \<open>today\<close> is
  the date that \<^verbatim>\<open>datetime.now()\<close> gives.
\<close>

definition assign_skills_to_goal ::
  "matcher \<Rightarrow> (json \<Rightarrow> string) \<Rightarrow> goal_file \<Rightarrow> registry \<Rightarrow> json \<Rightarrow> bool \<Rightarrow> string
     \<Rightarrow> error + (assignment \<times> goal_file)" where
  "assign_skills_to_goal rs jd gf reg sdp_section dry_run today =
     (let goal_name = g_name gf;
          goal_text = goal_text_of gf;
          skills_config = reg_skills reg
      in case score_all rs jd goal_text goal_name sdp_section skills_config of
           Inl e \<Rightarrow> Inl e
         | Inr scores \<Rightarrow>
             (case detect_composite_skills rs goal_name goal_text (reg_composites reg) of
                Inl e \<Rightarrow> Inl e
              | Inr composite_matches \<Rightarrow>
                  (let assigned =
                         add_composites skills_config composite_matches
                           (primary_skills skills_config scores);
                       gf' =
                         (if \<not> dry_run \<and> assigned \<noteq> []
                          then gf\<lparr>g_skills := Some (map a_name assigned),
                                  g_skill_paths :=
                                    Some (concat (map (\<lambda>s. case a_path s of
                                                             None \<Rightarrow> []
                                                           | Some p \<Rightarrow> if p = [] then [] else [p])
                                                   assigned)),
                                  g_skills_assigned := Some today\<rparr>
                          else gf)
                   in Inr (\<lparr>goal = goal_name,
                             title = (case g_title gf of None \<Rightarrow> goal_name | Some t \<Rightarrow> t),
                             assigned_skills = assigned,
                             composites = composite_matches,
                             total_score = sum_list (map a_score assigned)\<rparr>, gf'))))"

section \<open>Aggregate reporter\<close>

text \<open>
  The summary section of \<^verbatim>\<open>generate_skills_map\<close>. \<^verbatim>\<open>skill_counts\<close> is a
  dictionary in insertion order: a count is updated in place, a new name goes to the end.
\<close>

fun bump :: "string \<Rightarrow> (string \<times> int) list \<Rightarrow> (string \<times> int) list" where
  "bump name [] = [(name, 0 + 1)]"
| "bump name ((k, c) # rest) =
     (if k = name then (k, c + 1) # rest else (k, c) # bump name rest)"

definition skill_counts :: "assignment list \<Rightarrow> (string \<times> int) list" where
  "skill_counts assignments =
     foldl (\<lambda>counts name. bump name counts) []
       (concat (map (\<lambda>a. map a_name (assigned_skills a)) assignments))"

text \<open>Truthiness of \<^verbatim>\<open>s["path"]\<close>: neither \<^verbatim>\<open>None\<close> nor the empty string.\<close>

definition path_truthy :: "string option \<Rightarrow> bool" where
  "path_truthy p = (case p of None \<Rightarrow> False | Some s \<Rightarrow> s \<noteq> [])"

definition has_file :: "assignment list \<Rightarrow> string \<Rightarrow> bool" where
  "has_file assignments skill_name =
     list_ex (\<lambda>s. path_truthy (a_path s))
       (filter (\<lambda>s. a_name s = skill_name) (concat (map assigned_skills assignments)))"

text \<open>A row of the table: skill name, number of goals, and the flag of the last column.\<close>

definition usage_summary :: "assignment list \<Rightarrow> (string \<times> int \<times> bool) list" where
  "usage_summary assignments =
     map (\<lambda>item. (fst item, snd item, has_file assignments (fst item)))
       (sort_key (\<lambda>item. - snd item) (skill_counts assignments))"

section \<open>Order of first occurrence\<close>

text \<open>
  The list of the distinct elements of a list, each at the place of its first occurrence:
  the order in which the second loop of the resolver meets new names.
\<close>

fun first_occurrences :: "'a list \<Rightarrow> 'a list" where
  "first_occurrences [] = []"
| "first_occurrences (x # xs) = x # filter (\<lambda>y. y \<noteq> x) (first_occurrences xs)"

section \<open>Example data\<close>

text \<open>The skills, the composite and the goals of the examples of the specification.\<close>

definition frontend_design :: skill_def where
  "frontend_design =
     \<lparr>triggers = Some \<lparr>t_keywords = Some [''ui'', ''component'', ''dashboard''],
                        t_goal_patterns = Some [''^build-.*dashboard''],
                        t_file_types = None,
                        t_section_types = Some [''*'']\<rparr>,
      path = Some ''skills/frontend-design/SKILL.md''\<rparr>"

definition api_design :: skill_def where
  "api_design =
     \<lparr>triggers = Some \<lparr>t_keywords = Some [''endpoint'', ''rest'', ''api''],
                        t_goal_patterns = None,
                        t_file_types = None,
                        t_section_types = None\<rparr>,
      path = None\<rparr>"

definition testing :: skill_def where
  "testing =
     \<lparr>triggers = Some \<lparr>t_keywords = Some [''test''],
                        t_goal_patterns = None,
                        t_file_types = Some [''.spec.ts''],
                        t_section_types = None\<rparr>,
      path = None\<rparr>"

definition full_stack_feature :: composite_def where
  "full_stack_feature =
     \<lparr>c_triggers = Some [''crud''],
      c_skills = Some [''frontend-design'', ''api-design'', ''database-design''],
      c_description = Some ''Full stack feature''\<rparr>"

definition data_layer :: composite_def where
  "data_layer =
     \<lparr>c_triggers = Some [''^deploy'', ''inventory''],
      c_skills = Some [''database-design'', ''caching''],
      c_description = None\<rparr>"

definition example_registry :: registry where
  "example_registry =
     \<lparr>reg_skills = [(''frontend-design'', frontend_design), (''testing'', testing),
                     (''api-design'', api_design)],
      reg_composites = [(''full-stack-feature'', full_stack_feature),
                        (''data-layer'', data_layer)]\<rparr>"

definition build_dashboard :: goal_file where
  "build_dashboard =
     \<lparr>g_name = ''build-dashboard'', g_title = Some ''Build Dashboard'', g_body = [],
      g_skills = None, g_skill_paths = None, g_skills_assigned = None\<rparr>"

definition build_user_profile :: goal_file where
  "build_user_profile =
     \<lparr>g_name = ''build-user-profile'', g_title = None,
      g_body = ''Simple profile page, no API calls.'',
      g_skills = None, g_skill_paths = None, g_skills_assigned = None\<rparr>"

definition build_inventory_crud :: goal_file where
  "build_inventory_crud =
     \<lparr>g_name = ''build-inventory-crud'', g_title = Some ''Inventory'',
      g_body = ''A REST API endpoint for stock levels, with a test.'',
      g_skills = None, g_skill_paths = None, g_skills_assigned = None\<rparr>"

text \<open>The assignment that the resolver computes for \<open>build_inventory_crud\<close>.\<close>

definition inventory_assignment :: assignment where
  "inventory_assignment =
     \<lparr>goal = ''build-inventory-crud'', title = ''Inventory'',
      assigned_skills =
        [\<lparr>a_name = ''frontend-design'', a_path = Some ''skills/frontend-design/SKILL.md'',
           a_score = 3,
           a_reasons = [''keywords: ui'', ''applies to all build-* goals''],
           a_has_skill_file = True\<rparr>,
         \<lparr>a_name = ''api-design'', a_path = None, a_score = 3,
           a_reasons = [''keywords: endpoint, rest, api''], a_has_skill_file = False\<rparr>,
         \<lparr>a_name = ''database-design'', a_path = None, a_score = 1,
           a_reasons = [''composite: full-stack-feature''], a_has_skill_file = False\<rparr>,
         \<lparr>a_name = ''caching'', a_path = None, a_score = 1,
           a_reasons = [''composite: data-layer''], a_has_skill_file = False\<rparr>],
      composites =
        [\<lparr>m_name = ''full-stack-feature'',
           m_skills = [''frontend-design'', ''api-design'', ''database-design''],
           m_description = ''Full stack feature''\<rparr>,
         \<lparr>m_name = ''data-layer'', m_skills = [''database-design'', ''caching''],
           m_description = []\<rparr>],
      total_score = 8\<rparr>"

text \<open>A skill whose keyword list repeats one keyword, and two section payloads.\<close>

definition repeated_keywords :: skill_def where
  "repeated_keywords =
     \<lparr>triggers = Some \<lparr>t_keywords = Some [''api'', ''api'', ''api''],
                        t_goal_patterns = None, t_file_types = None, t_section_types = None\<rparr>,
      path = None\<rparr>"

definition api_section :: json where
  "api_section = JObj [(''title'', JStr ''API'')]"

definition rest_section :: json where
  "rest_section = JObj [(''title'', JStr ''Orders''),
                        (''notes'', JArr [JStr ''REST API'', JStr ''one endpoint per entity''])]"

text \<open>A skill without a trigger block, and one whose keywords occur in the text of the empty object.\<close>

definition no_triggers :: skill_def where
  "no_triggers = \<lparr>triggers = None, path = Some ''skills/general/SKILL.md''\<rparr>"

definition brace_skill :: skill_def where
  "brace_skill =
     \<lparr>triggers = Some \<lparr>t_keywords = Some [''{'', ''}'', ''{}''],
                        t_goal_patterns = None, t_file_types = Some [''{}''],
                        t_section_types = None\<rparr>,
      path = None\<rparr>"

text \<open>The goal file of \<open>build_inventory_crud\<close> after an earlier run has written skills into it.\<close>

definition assigned_before :: goal_file where
  "assigned_before =
     \<lparr>g_name = ''build-inventory-crud'', g_title = Some ''Inventory'',
      g_body = ''A REST API endpoint for stock levels, with a test.'',
      g_skills = Some [''testing''], g_skill_paths = Some [],
      g_skills_assigned = Some ''2025-01-31''\<rparr>"

text \<open>A registry whose skill has the empty string as its path, and assignments for the dashboard goal.\<close>

definition empty_path_registry :: registry where
  "empty_path_registry =
     \<lparr>reg_skills = [(''frontend-design'', frontend_design\<lparr>path := Some []\<rparr>)],
      reg_composites = []\<rparr>"

definition empty_path_assignment :: assignment where
  "empty_path_assignment =
     \<lparr>goal = ''build-dashboard'', title = ''Build Dashboard'',
      assigned_skills =
        [\<lparr>a_name = ''frontend-design'', a_path = Some [], a_score = 7,
           a_reasons = [''keywords: ui, dashboard'', ''goal pattern: ^build-.*dashboard'',
                        ''applies to all build-* goals''],
           a_has_skill_file = True\<rparr>],
      composites = [], total_score = 7\<rparr>"

definition dashboard_assignment :: assignment where
  "dashboard_assignment =
     \<lparr>goal = ''build-dashboard'', title = ''Build Dashboard'',
      assigned_skills =
        [\<lparr>a_name = ''frontend-design'', a_path = Some ''skills/frontend-design/SKILL.md'',
           a_score = 7,
           a_reasons = [''keywords: ui, dashboard'', ''goal pattern: ^build-.*dashboard'',
                        ''applies to all build-* goals''],
           a_has_skill_file = True\<rparr>],
      composites = [], total_score = 7\<rparr>"

section \<open>The count of distinct keywords\<close>

text \<open>
  The number of distinct keywords of a skill that occur in the serialised section, as
  opposed to \<open>section_keyword_hits\<close>, which counts the entries of the keyword list.
\<close>

definition distinct_section_keyword_hits :: "(json \<Rightarrow> string) \<Rightarrow> string list \<Rightarrow> json \<Rightarrow> nat" where
  "distinct_section_keyword_hits jd kws sdp_section =
     length (remdups (filter (\<lambda>kw. contains (lower (jd sdp_section)) (lower kw)) kws))"

section \<open>Lists without repetition\<close>

lemma first_occurrences_set [simp]: "set (first_occurrences xs) = set xs"
  by (induction xs) auto

lemma first_occurrences_distinct [simp]: "distinct (first_occurrences xs)"
  by (induction xs) auto

lemma first_occurrences_filter:
  "first_occurrences (filter P xs) = filter P (first_occurrences xs)"
proof (induction xs)
  case Nil
  show ?case by simp
next
  case (Cons x xs)
  have "\<not> P x \<Longrightarrow> filter P (first_occurrences xs) =
        filter (\<lambda>y. y \<noteq> x \<and> P y) (first_occurrences xs)"
    by (rule filter_cong) auto
  moreover have "filter (\<lambda>y. P y \<and> y \<noteq> x) (first_occurrences xs) =
        filter (\<lambda>y. y \<noteq> x \<and> P y) (first_occurrences xs)"
    by (rule filter_cong) auto
  ultimately show ?case using Cons by simp
qed

lemma filter_absent: "x \<notin> set xs \<Longrightarrow> filter (\<lambda>y. y \<noteq> x) xs = xs"
  by (induction xs) auto

lemma first_occurrences_append:
  "first_occurrences (xs @ ys) =
     first_occurrences xs @ filter (\<lambda>y. y \<notin> set xs) (first_occurrences ys)"
proof (induction xs)
  case Nil
  show ?case by simp
next
  case (Cons x xs)
  have "filter (\<lambda>y. y \<noteq> x) (filter (\<lambda>y. y \<notin> set xs) (first_occurrences ys)) =
        filter (\<lambda>y. y \<notin> set (x # xs)) (first_occurrences ys)"
    by (simp add: conj_commute)
  with Cons show ?case by simp
qed

lemma remdups_snoc: "remdups (ys @ [x]) = filter (\<lambda>y. y \<noteq> x) (remdups ys) @ [x]"
  by (induction ys) auto

lemma first_occurrences_remdups: "first_occurrences xs = rev (remdups (rev xs))"
  by (induction xs) (simp_all add: remdups_snoc rev_filter)

lemma add_members_names:
  "map a_name (add_members cfg cn ss acc) =
     map a_name acc @ first_occurrences (filter (\<lambda>s. s \<notin> set (map a_name acc)) ss)"
proof (induction ss arbitrary: acc)
  case Nil
  show ?case by simp
next
  case (Cons s ss)
  show ?case
  proof (cases "s \<in> set (map a_name acc)")
    case True
    then show ?thesis using Cons.IH [of acc] by simp
  next
    case False
    have "filter (\<lambda>x. x \<notin> a_name ` set acc \<and> x \<noteq> s) (first_occurrences ss) =
          filter (\<lambda>t. t \<noteq> s \<and> t \<notin> a_name ` set acc) (first_occurrences ss)"
      by (rule filter_cong) auto
    with False show ?thesis
      using Cons.IH [of "acc @ [composite_entry cfg cn s]"]
      by (simp add: composite_entry_def first_occurrences_filter)
  qed
qed

lemma add_composites_names:
  "map a_name (add_composites cfg cms acc) =
     map a_name acc @
     first_occurrences (filter (\<lambda>s. s \<notin> set (map a_name acc)) (concat (map m_skills cms)))"
proof (induction cms arbitrary: acc)
  case Nil
  show ?case by simp
next
  case (Cons cm cms)
  let ?A = "set (map a_name acc)"
  have "filter (\<lambda>s. s \<notin> ?A \<and> s \<notin> set (m_skills cm)) (first_occurrences (concat (map m_skills cms)))
        = filter (\<lambda>y. y \<notin> set (m_skills cm) \<and> y \<notin> ?A) (first_occurrences (concat (map m_skills cms)))"
    by (simp add: conj_commute)
  then show ?case
    using Cons.IH [of "add_members cfg (m_name cm) (m_skills cm) acc"]
    by (simp add: add_members_names first_occurrences_filter first_occurrences_append)
qed

section \<open>Properties of the resolver\<close>

lemma add_members_entries:
  "\<exists>ext. add_members cfg cn ss acc = acc @ ext \<and>
     (\<forall>e\<in>set ext. e = composite_entry cfg cn (a_name e) \<and> a_name e \<in> set ss)"
proof (induction ss arbitrary: acc)
  case Nil
  show ?case by simp
next
  case (Cons s ss)
  show ?case
  proof (cases "s \<in> set (map a_name acc)")
    case True
    with Cons.IH [of acc] show ?thesis by auto
  next
    case False
    from Cons.IH [of "acc @ [composite_entry cfg cn s]"]
    obtain ext where
      ext: "add_members cfg cn ss (acc @ [composite_entry cfg cn s]) =
              (acc @ [composite_entry cfg cn s]) @ ext"
        "\<forall>e\<in>set ext. e = composite_entry cfg cn (a_name e) \<and> a_name e \<in> set ss"
      by blast
    have "add_members cfg cn (s # ss) acc = acc @ (composite_entry cfg cn s # ext)"
      using False ext(1) by simp
    moreover have "\<forall>e\<in>set (composite_entry cfg cn s # ext).
        e = composite_entry cfg cn (a_name e) \<and> a_name e \<in> set (s # ss)"
      using ext(2) by (auto simp: composite_entry_def)
    ultimately show ?thesis by blast
  qed
qed

lemma add_composites_entries:
  "\<exists>ext. add_composites cfg cms acc = acc @ ext \<and>
     (\<forall>e\<in>set ext. \<exists>c\<in>set cms. e = composite_entry cfg (m_name c) (a_name e) \<and>
                                  a_name e \<in> set (m_skills c))"
proof (induction cms arbitrary: acc)
  case Nil
  show ?case by simp
next
  case (Cons cm cms)
  obtain e1 where e1: "add_members cfg (m_name cm) (m_skills cm) acc = acc @ e1"
      "\<forall>e\<in>set e1. e = composite_entry cfg (m_name cm) (a_name e) \<and> a_name e \<in> set (m_skills cm)"
    using add_members_entries by blast
  obtain e2 where e2: "add_composites cfg cms (acc @ e1) = (acc @ e1) @ e2"
      "\<forall>e\<in>set e2. \<exists>c\<in>set cms. e = composite_entry cfg (m_name c) (a_name e) \<and>
                                  a_name e \<in> set (m_skills c)"
    using Cons.IH [of "acc @ e1"] by blast
  have "add_composites cfg (cm # cms) acc = acc @ (e1 @ e2)"
    using e1(1) e2(1) by simp
  moreover have "\<forall>e\<in>set (e1 @ e2). \<exists>c\<in>set (cm # cms).
      e = composite_entry cfg (m_name c) (a_name e) \<and> a_name e \<in> set (m_skills c)"
    using e1(2) e2(2) by auto
  ultimately show ?case by blast
qed

lemma score_all_mem:
  "score_all rs jd gt gn sdp cfg = Inr scores \<Longrightarrow>
     ((n, r) \<in> set scores) =
     (\<exists>d. (n, d) \<in> set cfg \<and> score_skill rs jd n d gt gn sdp = Inr r \<and> 0 < score r)"
proof (induction cfg arbitrary: scores)
  case Nil
  then show ?case by simp
next
  case (Cons nd cfg)
  obtain n0 d0 where nd: "nd = (n0, d0)" by (cases nd)
  from Cons.prems nd obtain r0 scores0 where
    r0: "score_skill rs jd n0 d0 gt gn sdp = Inr r0" and
    s0: "score_all rs jd gt gn sdp cfg = Inr scores0" and
    sc: "scores = (if score r0 > 0 then (n0, r0) # scores0 else scores0)"
    by (auto split: sum.splits)
  from Cons.IH [OF s0] r0 sc nd show ?case by auto
qed

lemma score_all_order:
  "score_all rs jd gt gn sdp cfg = Inr scores \<Longrightarrow> 0 < k \<Longrightarrow>
     map fst (filter (\<lambda>it. score (snd it) = k) scores) =
     map fst (filter (\<lambda>nd. \<exists>r. score_skill rs jd (fst nd) (snd nd) gt gn sdp = Inr r \<and> score r = k) cfg)"
proof (induction cfg arbitrary: scores)
  case Nil
  then show ?case by simp
next
  case (Cons nd cfg)
  obtain n0 d0 where nd: "nd = (n0, d0)" by (cases nd)
  from Cons.prems nd obtain r0 scores0 where
    r0: "score_skill rs jd n0 d0 gt gn sdp = Inr r0" and
    s0: "score_all rs jd gt gn sdp cfg = Inr scores0" and
    sc: "scores = (if score r0 > 0 then (n0, r0) # scores0 else scores0)"
    by (auto split: sum.splits)
  from Cons.IH [OF s0 Cons.prems(2)] r0 sc nd Cons.prems(2) show ?case by auto
qed

lemma score_all_names:
  "score_all rs jd gt gn sdp cfg = Inr scores \<Longrightarrow> fst ` set scores \<subseteq> fst ` set cfg"
proof
  fix n
  assume a: "score_all rs jd gt gn sdp cfg = Inr scores" and "n \<in> fst ` set scores"
  then obtain r where "(n, r) \<in> set scores" by auto
  with score_all_mem [OF a] obtain d where "(n, d) \<in> set cfg" by blast
  then show "n \<in> fst ` set cfg" by force
qed

lemma score_all_distinct:
  "score_all rs jd gt gn sdp cfg = Inr scores \<Longrightarrow> distinct (map fst cfg) \<Longrightarrow>
     distinct (map fst scores)"
proof (induction cfg arbitrary: scores)
  case Nil
  then show ?case by simp
next
  case (Cons nd cfg)
  obtain n0 d0 where nd: "nd = (n0, d0)" by (cases nd)
  from Cons.prems nd obtain r0 scores0 where
    s0: "score_all rs jd gt gn sdp cfg = Inr scores0" and
    sc: "scores = (if score r0 > 0 then (n0, r0) # scores0 else scores0)"
    by (auto split: sum.splits)
  have "distinct (map fst scores0)" using Cons.IH [OF s0] Cons.prems(2) by simp
  moreover have "n0 \<notin> fst ` set scores0"
    using score_all_names [OF s0] Cons.prems(2) nd by auto
  ultimately show ?case using sc by simp
qed

lemma primary_names:
  "map a_name (primary_skills cfg scores) =
     map fst (filter (\<lambda>it. 2 \<le> score (snd it)) (sort_key (\<lambda>it. - score (snd it)) scores))"
  by (simp add: primary_skills_def primary_entry_def comp_def)

lemma primary_set:
  "set (primary_skills cfg scores) =
     primary_entry cfg ` {it \<in> set scores. 2 \<le> score (snd it)}"
  by (auto simp: primary_skills_def)

lemma primary_distinct:
  "distinct (map fst scores) \<Longrightarrow> distinct (map a_name (primary_skills cfg scores))"
proof -
  assume d: "distinct (map fst scores)"
  have "distinct (map fst (sort_key (\<lambda>it. - score (snd it)) scores))"
    using d by (simp add: distinct_map)
  then show ?thesis
    unfolding primary_names by (rule distinct_map_filter)
qed

lemma primary_sorted:
  "sorted_wrt (\<lambda>x y. a_score y \<le> a_score x) (primary_skills cfg scores)"
proof -
  let ?f = "\<lambda>it :: string \<times> score_result. - score (snd it)"
  have "sorted (map ?f (filter (\<lambda>it. 2 \<le> score (snd it)) (sort_key ?f scores)))"
    by (rule sorted_filter) (rule sorted_sort_key)
  then have "sorted_wrt (\<lambda>x y. score (snd y) \<le> score (snd x))
               (filter (\<lambda>it. 2 \<le> score (snd it)) (sort_key ?f scores))"
    by (simp add: sorted_map)
  then show ?thesis
    by (simp add: primary_skills_def sorted_wrt_map primary_entry_def)
qed

lemma primary_stable:
  "map a_name (filter (\<lambda>e. a_score e = k) (primary_skills cfg scores)) =
     map fst (filter (\<lambda>it. score (snd it) = k \<and> 2 \<le> k) scores)"
proof -
  let ?f = "\<lambda>it :: string \<times> score_result. - score (snd it)"
  have "filter (\<lambda>it. score (snd it) = k) (sort_key ?f scores) =
        filter (\<lambda>it. ?f it = - k) (sort_key ?f scores)"
    by (rule filter_cong) auto
  also have "\<dots> = filter (\<lambda>it. ?f it = - k) scores"
    by (rule sort_key_stable)
  also have "\<dots> = filter (\<lambda>it. score (snd it) = k) scores"
    by (rule filter_cong) auto
  finally have st: "filter (\<lambda>it. score (snd it) = k) (sort_key ?f scores) =
                    filter (\<lambda>it. score (snd it) = k) scores" .
  have "map a_name (filter (\<lambda>e. a_score e = k) (primary_skills cfg scores)) =
        map fst (filter (\<lambda>it. score (snd it) = k)
                   (filter (\<lambda>it. 2 \<le> score (snd it)) (sort_key ?f scores)))"
    by (simp add: primary_skills_def filter_map comp_def primary_entry_def)
  also have "\<dots> = map fst (filter (\<lambda>it. 2 \<le> score (snd it))
                   (filter (\<lambda>it. score (snd it) = k) (sort_key ?f scores)))"
    by (simp add: conj_commute)
  also have "\<dots> = map fst (filter (\<lambda>it. score (snd it) = k \<and> 2 \<le> k) scores)"
    unfolding st by (simp, metis)
  finally show ?thesis .
qed

lemma assign_Inr:
  assumes "assign_skills_to_goal rs jd gf reg sdp dry today = Inr (a, gf')"
  shows "\<exists>scores.
     score_all rs jd (goal_text_of gf) (g_name gf) sdp (reg_skills reg) = Inr scores \<and>
     detect_composite_skills rs (g_name gf) (goal_text_of gf) (reg_composites reg)
       = Inr (composites a) \<and>
     assigned_skills a =
       add_composites (reg_skills reg) (composites a) (primary_skills (reg_skills reg) scores)"
  using assms
  by (auto simp: assign_skills_to_goal_def Let_def split: sum.splits)

lemma primary_name_iff:
  assumes "score_all rs jd gt gn sdp cfg = Inr scores"
  shows "(n \<in> set (map a_name (primary_skills cfg scores))) =
         (\<exists>d r. (n, d) \<in> set cfg \<and> score_skill rs jd n d gt gn sdp = Inr r \<and> 2 \<le> score r)"
proof
  assume "n \<in> set (map a_name (primary_skills cfg scores))"
  then obtain r where "(n, r) \<in> set scores" "2 \<le> score r"
    by (auto simp: primary_names)
  with score_all_mem [OF assms, of n r]
  show "\<exists>d r. (n, d) \<in> set cfg \<and> score_skill rs jd n d gt gn sdp = Inr r \<and> 2 \<le> score r"
    by blast
next
  assume "\<exists>d r. (n, d) \<in> set cfg \<and> score_skill rs jd n d gt gn sdp = Inr r \<and> 2 \<le> score r"
  then obtain d r where dr: "(n, d) \<in> set cfg" "score_skill rs jd n d gt gn sdp = Inr r"
      "2 \<le> score r" by blast
  then have "(n, r) \<in> set scores" using score_all_mem [OF assms, of n r] by auto
  with dr(3) show "n \<in> set (map a_name (primary_skills cfg scores))"
    by (force simp: primary_names)
qed

lemma primary_entry_direct:
  assumes "score_all rs jd gt gn sdp cfg = Inr scores"
      and "e \<in> set (primary_skills cfg scores)"
  shows "\<exists>d r. (a_name e, d) \<in> set cfg \<and> score_skill rs jd (a_name e) d gt gn sdp = Inr r \<and>
               2 \<le> score r \<and> a_score e = score r \<and> a_reasons e = reasons r"
proof -
  from assms(2) obtain n r where nr: "(n, r) \<in> set scores" "2 \<le> score r"
      "e = primary_entry cfg (n, r)"
    by (auto simp: primary_set)
  from score_all_mem [OF assms(1), of n r] nr(1)
  obtain d where "(n, d) \<in> set cfg" "score_skill rs jd n d gt gn sdp = Inr r" by blast
  with nr show ?thesis by (auto simp: primary_entry_def)
qed

lemma inventory_run:
  "assign_skills_to_goal re_search json_dumps build_inventory_crud example_registry JNull True
     ''2026-11-04'' = Inr (inventory_assignment, build_inventory_crud)"
  by code_simp

lemma example_registry_keys: "distinct (map fst (reg_skills example_registry))"
  by code_simp

text \<open>
  Claim C1. Whenever the resolver returns an assignment for a goal: a skill name is in the
  assignment if and only if the scorer gives one of its registry entries a score of at
  least 2 or a matched composite lists it; an entry of a directly qualified skill carries
  the scorer's score and reasons, and every other entry has score 1 and the single reason
  naming a matched composite that lists it; a skill with direct score 1 that no matched
  composite lists is not in the assignment. The matched composites are those that the
  composite matcher returns.
\<close>

theorem C1_membership:
  assumes run: "assign_skills_to_goal rs jd gf reg sdp dry today = Inr (a, gf')"
      and keys: "distinct (map fst (reg_skills reg))"
  shows "detect_composite_skills rs (g_name gf) (goal_text_of gf) (reg_composites reg)
           = Inr (composites a) \<and>
     (\<forall>n. (n \<in> set (map a_name (assigned_skills a))) =
          ((\<exists>d r. (n, d) \<in> set (reg_skills reg) \<and>
                  score_skill rs jd n d (goal_text_of gf) (g_name gf) sdp = Inr r \<and> 2 \<le> score r)
           \<or> (\<exists>c\<in>set (composites a). n \<in> set (m_skills c)))) \<and>
     (\<forall>e\<in>set (assigned_skills a).
          (\<exists>d r. (a_name e, d) \<in> set (reg_skills reg) \<and>
                 score_skill rs jd (a_name e) d (goal_text_of gf) (g_name gf) sdp = Inr r \<and>
                 2 \<le> score r \<and> a_score e = score r \<and> a_reasons e = reasons r)
          \<or> (\<not> (\<exists>d r. (a_name e, d) \<in> set (reg_skills reg) \<and>
                 score_skill rs jd (a_name e) d (goal_text_of gf) (g_name gf) sdp = Inr r \<and>
                 2 \<le> score r) \<and>
              a_score e = 1 \<and>
              (\<exists>c\<in>set (composites a). a_name e \<in> set (m_skills c) \<and>
                   a_reasons e = [''composite: '' @ m_name c]))) \<and>
     (\<forall>n d r. (n, d) \<in> set (reg_skills reg) \<and>
              score_skill rs jd n d (goal_text_of gf) (g_name gf) sdp = Inr r \<and> score r = 1 \<and>
              (\<forall>c\<in>set (composites a). n \<notin> set (m_skills c))
              \<longrightarrow> n \<notin> set (map a_name (assigned_skills a)))"
proof -
  let ?cfg = "reg_skills reg"
  let ?Q = "\<lambda>n. \<exists>d r. (n, d) \<in> set ?cfg \<and>
                score_skill rs jd n d (goal_text_of gf) (g_name gf) sdp = Inr r \<and> 2 \<le> score r"
  from assign_Inr [OF run] obtain scores where
    sc: "score_all rs jd (goal_text_of gf) (g_name gf) sdp ?cfg = Inr scores" and
    det: "detect_composite_skills rs (g_name gf) (goal_text_of gf) (reg_composites reg)
            = Inr (composites a)" and
    asg: "assigned_skills a = add_composites ?cfg (composites a) (primary_skills ?cfg scores)"
    by blast
  let ?P = "primary_skills ?cfg scores"
  have Pn: "\<And>n. (n \<in> set (map a_name ?P)) = ?Q n"
    by (rule primary_name_iff [OF sc])
  have names: "map a_name (assigned_skills a) =
      map a_name ?P @ first_occurrences
        (filter (\<lambda>s. s \<notin> set (map a_name ?P)) (concat (map m_skills (composites a))))"
    unfolding asg by (rule add_composites_names)
  have mem: "\<And>n. (n \<in> set (map a_name (assigned_skills a))) =
                 (?Q n \<or> (\<exists>c\<in>set (composites a). n \<in> set (m_skills c)))"
  proof -
    fix n
    have "(n \<in> set (map a_name (assigned_skills a))) =
          (n \<in> set (map a_name ?P) \<or> (\<exists>c\<in>set (composites a). n \<in> set (m_skills c)))"
      unfolding names by auto
    then show "(n \<in> set (map a_name (assigned_skills a))) =
                 (?Q n \<or> (\<exists>c\<in>set (composites a). n \<in> set (m_skills c)))"
      using Pn by simp
  qed
  obtain ext where ext: "assigned_skills a = ?P @ ext"
      "\<forall>e\<in>set ext. \<exists>c\<in>set (composites a).
          e = composite_entry ?cfg (m_name c) (a_name e) \<and> a_name e \<in> set (m_skills c)"
    unfolding asg using add_composites_entries by blast
  have extn: "map a_name ext = first_occurrences
        (filter (\<lambda>s. s \<notin> set (map a_name ?P)) (concat (map m_skills (composites a))))"
    using names ext(1) by simp
  have ent: "\<forall>e\<in>set (assigned_skills a).
      (\<exists>d r. (a_name e, d) \<in> set ?cfg \<and>
             score_skill rs jd (a_name e) d (goal_text_of gf) (g_name gf) sdp = Inr r \<and>
             2 \<le> score r \<and> a_score e = score r \<and> a_reasons e = reasons r)
      \<or> (\<not> ?Q (a_name e) \<and> a_score e = 1 \<and>
          (\<exists>c\<in>set (composites a). a_name e \<in> set (m_skills c) \<and>
               a_reasons e = [''composite: '' @ m_name c]))"
  proof
    fix e
    assume "e \<in> set (assigned_skills a)"
    then consider "e \<in> set ?P" | "e \<in> set ext" using ext(1) by auto
    then show "(\<exists>d r. (a_name e, d) \<in> set ?cfg \<and>
             score_skill rs jd (a_name e) d (goal_text_of gf) (g_name gf) sdp = Inr r \<and>
             2 \<le> score r \<and> a_score e = score r \<and> a_reasons e = reasons r)
      \<or> (\<not> ?Q (a_name e) \<and> a_score e = 1 \<and>
          (\<exists>c\<in>set (composites a). a_name e \<in> set (m_skills c) \<and>
               a_reasons e = [''composite: '' @ m_name c]))"
    proof cases
      case 1
      from primary_entry_direct [OF sc 1] show ?thesis by blast
    next
      case 2
      then have "a_name e \<in> set (map a_name ext)" by simp
      then have "a_name e \<notin> set (map a_name ?P)" unfolding extn by simp
      then have nq: "\<not> ?Q (a_name e)" using Pn by simp
      from ext(2) 2 obtain c where c: "c \<in> set (composites a)"
          "e = composite_entry ?cfg (m_name c) (a_name e)" "a_name e \<in> set (m_skills c)"
        by blast
      from c(2) have "a_score e = 1" "a_reasons e = [''composite: '' @ m_name c]"
        by (metis assigned_skill.select_convs(3) composite_entry_def,
            metis assigned_skill.select_convs(4) composite_entry_def)
      with nq c(1,3) show ?thesis by blast
    qed
  qed
  have excl: "\<forall>n d r. (n, d) \<in> set ?cfg \<and>
              score_skill rs jd n d (goal_text_of gf) (g_name gf) sdp = Inr r \<and> score r = 1 \<and>
              (\<forall>c\<in>set (composites a). n \<notin> set (m_skills c))
              \<longrightarrow> n \<notin> set (map a_name (assigned_skills a))"
  proof (intro allI impI)
    fix n d r
    assume h: "(n, d) \<in> set ?cfg \<and>
              score_skill rs jd n d (goal_text_of gf) (g_name gf) sdp = Inr r \<and> score r = 1 \<and>
              (\<forall>c\<in>set (composites a). n \<notin> set (m_skills c))"
    have "\<not> ?Q n"
    proof
      assume "?Q n"
      then obtain d' r' where q: "(n, d') \<in> set ?cfg"
          "score_skill rs jd n d' (goal_text_of gf) (g_name gf) sdp = Inr r'" "2 \<le> score r'"
        by blast
      from keys q(1) h have "d' = d" by (meson eq_key_imp_eq_value)
      with q h show False by simp
    qed
    with h mem [of n] show "n \<notin> set (map a_name (assigned_skills a))" by blast
  qed
  from det mem ent excl show ?thesis by blast
qed

theorem C1_membership_witness:
  "assign_skills_to_goal re_search json_dumps build_inventory_crud example_registry JNull True
     ''2026-11-04'' = Inr (inventory_assignment, build_inventory_crud) \<and>
   distinct (map fst (reg_skills example_registry)) \<and>
   (''caching'' \<in> set (map a_name (assigned_skills inventory_assignment))) =
     ((\<exists>d r. (''caching'', d) \<in> set (reg_skills example_registry) \<and>
             score_skill re_search json_dumps ''caching'' d (goal_text_of build_inventory_crud)
               (g_name build_inventory_crud) JNull = Inr r \<and> 2 \<le> score r)
      \<or> (\<exists>c\<in>set (composites inventory_assignment). ''caching'' \<in> set (m_skills c)))"
proof -
  note t = C1_membership [OF inventory_run example_registry_keys]
  from conjunct1 [OF conjunct2 [OF t]]
  have "(''caching'' \<in> set (map a_name (assigned_skills inventory_assignment))) =
     ((\<exists>d r. (''caching'', d) \<in> set (reg_skills example_registry) \<and>
             score_skill re_search json_dumps ''caching'' d (goal_text_of build_inventory_crud)
               (g_name build_inventory_crud) JNull = Inr r \<and> 2 \<le> score r)
      \<or> (\<exists>c\<in>set (composites inventory_assignment). ''caching'' \<in> set (m_skills c)))"
    by (rule spec)
  with inventory_run example_registry_keys show ?thesis by simp
qed

text \<open>
  Claim C2. Whenever the resolver returns an assignment for a registry whose skill names
  are the keys of a dictionary, no skill name occurs twice in the assignment.
\<close>

theorem C2_no_duplicates:
  assumes run: "assign_skills_to_goal rs jd gf reg sdp dry today = Inr (a, gf')"
      and keys: "distinct (map fst (reg_skills reg))"
  shows "distinct (map a_name (assigned_skills a))"
proof -
  let ?cfg = "reg_skills reg"
  from assign_Inr [OF run] obtain scores where
    sc: "score_all rs jd (goal_text_of gf) (g_name gf) sdp ?cfg = Inr scores" and
    asg: "assigned_skills a = add_composites ?cfg (composites a) (primary_skills ?cfg scores)"
    by blast
  have "distinct (map a_name (primary_skills ?cfg scores))"
    by (rule primary_distinct) (rule score_all_distinct [OF sc keys])
  then show ?thesis
    unfolding asg add_composites_names by auto
qed

theorem C2_no_duplicates_witness:
  "assign_skills_to_goal re_search json_dumps build_inventory_crud example_registry JNull True
     ''2026-11-04'' = Inr (inventory_assignment, build_inventory_crud) \<and>
   distinct (map fst (reg_skills example_registry)) \<and>
   distinct (map a_name (assigned_skills inventory_assignment))"
  using C2_no_duplicates [OF inventory_run example_registry_keys]
    inventory_run example_registry_keys
  by simp

text \<open>
  Claim C3. Whenever the resolver returns an assignment, it is a list \<open>P\<close> followed by a
  list \<open>E\<close>: \<open>P\<close> holds exactly the skills with a direct score of at least 2, with that
  score, in descending order of score, and the skills of one score in the order of the
  registry; \<open>E\<close> holds the entries added for composites, none of them in \<open>P\<close>, in the order
  of their first occurrence in the member lists of the matched composites taken in the
  order of the matches.
\<close>

theorem C3_ordering:
  assumes run: "assign_skills_to_goal rs jd gf reg sdp dry today = Inr (a, gf')"
  shows "\<exists>P E. assigned_skills a = P @ E \<and>
     (\<forall>n. (n \<in> set (map a_name P)) =
          (\<exists>d r. (n, d) \<in> set (reg_skills reg) \<and>
                 score_skill rs jd n d (goal_text_of gf) (g_name gf) sdp = Inr r \<and> 2 \<le> score r)) \<and>
     (\<forall>e\<in>set P. \<exists>d r. (a_name e, d) \<in> set (reg_skills reg) \<and>
                 score_skill rs jd (a_name e) d (goal_text_of gf) (g_name gf) sdp = Inr r \<and>
                 2 \<le> score r \<and> a_score e = score r) \<and>
     (\<forall>e\<in>set E. a_name e \<notin> set (map a_name P) \<and> a_score e = 1) \<and>
     sorted_wrt (\<lambda>x y. a_score y \<le> a_score x) P \<and>
     (\<forall>k. map a_name (filter (\<lambda>e. a_score e = k) P) =
          map fst (filter (\<lambda>nd. \<exists>r. score_skill rs jd (fst nd) (snd nd) (goal_text_of gf)
                                        (g_name gf) sdp = Inr r \<and> score r = k \<and> 2 \<le> k)
                     (reg_skills reg))) \<and>
     map a_name E =
       rev (remdups (rev (filter (\<lambda>n. n \<notin> set (map a_name P))
                            (concat (map m_skills (composites a))))))"
proof -
  let ?cfg = "reg_skills reg"
  from assign_Inr [OF run] obtain scores where
    sc: "score_all rs jd (goal_text_of gf) (g_name gf) sdp ?cfg = Inr scores" and
    asg: "assigned_skills a = add_composites ?cfg (composites a) (primary_skills ?cfg scores)"
    by blast
  let ?P = "primary_skills ?cfg scores"
  obtain E where E: "assigned_skills a = ?P @ E"
      "\<forall>e\<in>set E. \<exists>c\<in>set (composites a).
          e = composite_entry ?cfg (m_name c) (a_name e) \<and> a_name e \<in> set (m_skills c)"
    unfolding asg using add_composites_entries by blast
  have "map a_name (assigned_skills a) =
      map a_name ?P @ first_occurrences
        (filter (\<lambda>s. s \<notin> set (map a_name ?P)) (concat (map m_skills (composites a))))"
    unfolding asg by (rule add_composites_names)
  then have En: "map a_name E = first_occurrences
        (filter (\<lambda>s. s \<notin> set (map a_name ?P)) (concat (map m_skills (composites a))))"
    using E(1) by simp
  have c1: "\<forall>n. (n \<in> set (map a_name ?P)) =
          (\<exists>d r. (n, d) \<in> set ?cfg \<and>
                 score_skill rs jd n d (goal_text_of gf) (g_name gf) sdp = Inr r \<and> 2 \<le> score r)"
    using primary_name_iff [OF sc] by blast
  have c2: "\<forall>e\<in>set ?P. \<exists>d r. (a_name e, d) \<in> set ?cfg \<and>
                 score_skill rs jd (a_name e) d (goal_text_of gf) (g_name gf) sdp = Inr r \<and>
                 2 \<le> score r \<and> a_score e = score r"
    using primary_entry_direct [OF sc] by blast
  have c3: "\<forall>e\<in>set E. a_name e \<notin> set (map a_name ?P) \<and> a_score e = 1"
  proof
    fix e
    assume e: "e \<in> set E"
    then have "a_name e \<in> set (map a_name E)" by simp
    then have "a_name e \<notin> set (map a_name ?P)" unfolding En by simp
    moreover from E(2) e obtain c where "c \<in> set (composites a)"
        "e = composite_entry ?cfg (m_name c) (a_name e)" "a_name e \<in> set (m_skills c)"
      by blast
    then have "a_score e = 1"
      by (metis assigned_skill.select_convs(3) composite_entry_def)
    ultimately show "a_name e \<notin> set (map a_name ?P) \<and> a_score e = 1" by simp
  qed
  have c4: "sorted_wrt (\<lambda>x y. a_score y \<le> a_score x) ?P"
    by (rule primary_sorted)
  have c5: "\<forall>k. map a_name (filter (\<lambda>e. a_score e = k) ?P) =
          map fst (filter (\<lambda>nd. \<exists>r. score_skill rs jd (fst nd) (snd nd) (goal_text_of gf)
                                        (g_name gf) sdp = Inr r \<and> score r = k \<and> 2 \<le> k) ?cfg)"
  proof
    fix k
    show "map a_name (filter (\<lambda>e. a_score e = k) ?P) =
          map fst (filter (\<lambda>nd. \<exists>r. score_skill rs jd (fst nd) (snd nd) (goal_text_of gf)
                                        (g_name gf) sdp = Inr r \<and> score r = k \<and> 2 \<le> k) ?cfg)"
    proof (cases "2 \<le> k")
      case True
      then have "0 < k" by simp
      from score_all_order [OF sc this] True show ?thesis
        by (simp add: primary_stable)
    next
      case False
      then show ?thesis by (simp add: primary_stable)
    qed
  qed
  have c6: "map a_name E =
       rev (remdups (rev (filter (\<lambda>n. n \<notin> set (map a_name ?P))
                            (concat (map m_skills (composites a))))))"
    using En by (simp add: first_occurrences_remdups)
  from E(1) c1 c2 c3 c4 c5 c6 show ?thesis by blast
qed

theorem C3_ordering_witness:
  "assign_skills_to_goal re_search json_dumps build_inventory_crud example_registry JNull True
     ''2026-11-04'' = Inr (inventory_assignment, build_inventory_crud) \<and>
   (\<exists>P E. assigned_skills inventory_assignment = P @ E \<and>
      sorted_wrt (\<lambda>x y. a_score y \<le> a_score x) P \<and>
      map a_name E =
        rev (remdups (rev (filter (\<lambda>n. n \<notin> set (map a_name P))
                             (concat (map m_skills (composites inventory_assignment)))))))"
proof -
  from C3_ordering [OF inventory_run]
  have "\<exists>P E. assigned_skills inventory_assignment = P @ E \<and>
      sorted_wrt (\<lambda>x y. a_score y \<le> a_score x) P \<and>
      map a_name E =
        rev (remdups (rev (filter (\<lambda>n. n \<notin> set (map a_name P))
                             (concat (map m_skills (composites inventory_assignment))))))"
    by (elim exE conjE) (intro exI conjI, assumption+)
  with inventory_run show ?thesis by simp
qed

section \<open>Substrings\<close>

lemma startswith_iff: "startswith s p = (\<exists>suf. s = p @ suf)"
  by (induction s p rule: startswith.induct) auto

lemma contains_iff: "contains hay n = (\<exists>pre suf. hay = pre @ n @ suf)"
proof (induction hay)
  case Nil
  show ?case by auto
next
  case (Cons c s)
  show ?case
  proof
    assume "contains (c # s) n"
    then consider "startswith (c # s) n" | "contains s n" by auto
    then show "\<exists>pre suf. c # s = pre @ n @ suf"
    proof cases
      case 1
      then obtain suf where "c # s = n @ suf" by (auto simp: startswith_iff)
      then have "c # s = [] @ n @ suf" by simp
      then show ?thesis by blast
    next
      case 2
      then obtain pre suf where "s = pre @ n @ suf" using Cons.IH by blast
      then have "c # s = (c # pre) @ n @ suf" by simp
      then show ?thesis by blast
    qed
  next
    assume "\<exists>pre suf. c # s = pre @ n @ suf"
    then obtain pre suf where ps: "c # s = pre @ n @ suf" by blast
    show "contains (c # s) n"
    proof (cases pre)
      case Nil
      with ps have "startswith (c # s) n" by (auto simp: startswith_iff)
      then show ?thesis by simp
    next
      case (Cons p pre')
      with ps have "s = pre' @ n @ suf" by simp
      then have "contains s n" using Cons.IH by blast
      then show ?thesis by simp
    qed
  qed
qed

lemma length_filter_positions:
  "length (filter P xs) = card {i. i < length xs \<and> P (xs ! i)}"
  by (rule length_filter_conv_card)

lemma length_filter_distinct:
  "distinct xs \<Longrightarrow> length (filter P xs) = card {x \<in> set xs. P x}"
  by (metis distinct_card distinct_filter set_filter)

section \<open>The examples of the specification\<close>

lemma dashboard_lower: "lower ''build-dashboard'' = ''build-dashboard''"
  by code_simp

lemma dashboard_keywords:
  "keyword_signal [''ui'', ''component'', ''dashboard''] (goal_text_of build_dashboard) =
     (2, [''keywords: ui, dashboard''])"
  by code_simp

lemma dashboard_wildcard:
  "wildcard_signal [''*''] ''build-dashboard'' = (2, [''applies to all build-* goals''])"
  by code_simp

lemma no_payload_signals [simp]:
  "file_type_signal jd fts JNull = (0, [])" "density_signal jd kws JNull = (0, [])"
  by (simp_all add: file_type_signal_def density_signal_def)

lemma frontend_lists:
  "trigger_list t_keywords frontend_design = [''ui'', ''component'', ''dashboard'']"
  "trigger_list t_goal_patterns frontend_design = [''^build-.*dashboard'']"
  "trigger_list t_file_types frontend_design = []"
  "trigger_list t_section_types frontend_design = [''*'']"
  by (simp_all add: trigger_list_def frontend_design_def get_list_def)

text \<open>
  Claim C4 gives the \<^verbatim>\<open>frontend-design\<close> example a score of 6 with a keyword
  contribution of 1. The keyword \<^verbatim>\<open>ui\<close> is a substring of \<^verbatim>\<open>build\<close>, so the
  scorer counts two keywords.
\<close>

theorem C4_counterexample:
  "map_sum id score
     (score_skill re_search json_dumps ''frontend-design'' frontend_design
        (goal_text_of build_dashboard) (g_name build_dashboard) JNull) \<noteq> Inr 6 \<and>
   fst (keyword_signal (trigger_list t_keywords frontend_design) (goal_text_of build_dashboard)) \<noteq> 1"
  by code_simp

text \<open>
  Claim C4, amended. For every matcher that finds \<^verbatim>\<open>^build-.*dashboard\<close> in
  \<^verbatim>\<open>build-dashboard\<close>, the scorer gives \<^verbatim>\<open>frontend-design\<close> on the goal
  \<^verbatim>\<open>build-dashboard\<close> (title "Build Dashboard", empty body, no payload) the score 7:
  the keyword signal contributes 2 (\<^verbatim>\<open>ui\<close> and \<^verbatim>\<open>dashboard\<close>), the goal-pattern
  signal 3, the wildcard signal 2, the two payload signals 0, and the reasons are those of
  the three contributing signals.
\<close>

theorem C4_frontend_example:
  assumes "rs ''^build-.*dashboard'' ''build-dashboard'' = Inr True"
  shows "score_skill rs jd ''frontend-design'' frontend_design
           (goal_text_of build_dashboard) (g_name build_dashboard) JNull =
         Inr \<lparr>score = 7,
              reasons = [''keywords: ui, dashboard'', ''goal pattern: ^build-.*dashboard'',
                         ''applies to all build-* goals'']\<rparr> \<and>
         keyword_signal (trigger_list t_keywords frontend_design) (goal_text_of build_dashboard)
           = (2, [''keywords: ui, dashboard'']) \<and>
         pattern_signal rs (trigger_list t_goal_patterns frontend_design) (g_name build_dashboard)
           = Inr (3, [''goal pattern: ^build-.*dashboard'']) \<and>
         file_type_signal jd (trigger_list t_file_types frontend_design) JNull = (0, []) \<and>
         wildcard_signal (trigger_list t_section_types frontend_design) (g_name build_dashboard)
           = (2, [''applies to all build-* goals'']) \<and>
         density_signal jd (trigger_list t_keywords frontend_design) JNull = (0, [])"
proof -
  have n: "g_name build_dashboard = ''build-dashboard''" by (simp add: build_dashboard_def)
  have p: "pattern_signal rs [''^build-.*dashboard''] ''build-dashboard''
             = Inr (3, [''goal pattern: ^build-.*dashboard''])"
    using assms by (simp add: pattern_signal_def dashboard_lower)
  show ?thesis
    unfolding score_skill_def frontend_lists n Let_def
    by (simp add: dashboard_keywords dashboard_wildcard p)
qed

theorem C4_frontend_example_witness:
  "re_search ''^build-.*dashboard'' ''build-dashboard'' = Inr True \<and>
   score_skill re_search json_dumps ''frontend-design'' frontend_design
     (goal_text_of build_dashboard) (g_name build_dashboard) JNull =
   Inr \<lparr>score = 7,
        reasons = [''keywords: ui, dashboard'', ''goal pattern: ^build-.*dashboard'',
                   ''applies to all build-* goals'']\<rparr>"
proof -
  have h: "re_search ''^build-.*dashboard'' ''build-dashboard'' = Inr True" by code_simp
  from C4_frontend_example [of re_search json_dumps, OF h] h show ?thesis by simp
qed

lemma api_lists:
  "trigger_list t_keywords api_design = [''endpoint'', ''rest'', ''api'']"
  "trigger_list t_goal_patterns api_design = []"
  "trigger_list t_file_types api_design = []"
  "trigger_list t_section_types api_design = []"
  by (simp_all add: trigger_list_def api_design_def get_list_def)

lemma profile_keywords:
  "keyword_signal [''endpoint'', ''rest'', ''api''] (goal_text_of build_user_profile) =
     (1, [''keywords: api''])"
  by code_simp

text \<open>
  Claim C5 gives the \<^verbatim>\<open>api-design\<close> example a score of 0. The lowered goal text
  contains \<^verbatim>\<open>api\<close> (from "API"), so the score is not 0.
\<close>

theorem C5_counterexample:
  "map_sum id score
     (score_skill re_search json_dumps ''api-design'' api_design
        (goal_text_of build_user_profile) (g_name build_user_profile) JNull) \<noteq> Inr 0"
  by code_simp

text \<open>
  Claim C5, amended. The scorer gives \<^verbatim>\<open>api-design\<close> on the goal
  \<^verbatim>\<open>build-user-profile\<close> with the body "Simple profile page, no API calls." the
  score 1, with the single reason naming the keyword \<^verbatim>\<open>api\<close>; being below the
  threshold, the skill is not in the assignment of a registry that holds only this skill
  and no composite.
\<close>

theorem C5_api_example:
  "score_skill rs jd ''api-design'' api_design
     (goal_text_of build_user_profile) (g_name build_user_profile) JNull =
   Inr \<lparr>score = 1, reasons = [''keywords: api'']\<rparr> \<and>
   map_sum id (\<lambda>res. assigned_skills (fst res))
     (assign_skills_to_goal rs jd build_user_profile
        \<lparr>reg_skills = [(''api-design'', api_design)], reg_composites = []\<rparr> JNull dry today)
     = Inr []"
proof -
  have s: "score_skill rs jd ''api-design'' api_design
     (goal_text_of build_user_profile) (g_name build_user_profile) JNull =
   Inr \<lparr>score = 1, reasons = [''keywords: api'']\<rparr>"
    unfolding score_skill_def api_lists Let_def
    by (simp add: profile_keywords pattern_signal_def wildcard_signal_def)
  then show ?thesis
    by (simp add: assign_skills_to_goal_def Let_def primary_skills_def)
qed

section \<open>Properties of the scorer\<close>

lemma score_skill_parts:
  "score_skill rs jd name skill gt gn sdp = Inr r \<Longrightarrow>
     \<exists>c2. pattern_signal rs (trigger_list t_goal_patterns skill) gn = Inr c2 \<and>
       score r = fst (keyword_signal (trigger_list t_keywords skill) gt) + fst c2 +
                 fst (file_type_signal jd (trigger_list t_file_types skill) sdp) +
                 fst (wildcard_signal (trigger_list t_section_types skill) gn) +
                 fst (density_signal jd (trigger_list t_keywords skill) sdp) \<and>
       reasons r = snd (keyword_signal (trigger_list t_keywords skill) gt) @ snd c2 @
                 snd (file_type_signal jd (trigger_list t_file_types skill) sdp) @
                 snd (wildcard_signal (trigger_list t_section_types skill) gn) @
                 snd (density_signal jd (trigger_list t_keywords skill) sdp)"
  by (auto simp: score_skill_def Let_def split: sum.splits)

text \<open>
  Claim C6 counts distinct keywords. For a keyword list that repeats \<^verbatim>\<open>api\<close> three
  times and a payload that contains it, one distinct keyword occurs, while the density
  signal contributes 3.
\<close>

theorem C6_counterexample:
  "truthy api_section \<and>
   distinct_section_keyword_hits json_dumps (trigger_list t_keywords repeated_keywords) api_section
     = 1 \<and>
   density_signal json_dumps (trigger_list t_keywords repeated_keywords) api_section
     = (3, [''3 keyword hits in SDP section'']) \<and>
   score_skill re_search json_dumps ''api-design'' repeated_keywords ''build-page  '' ''build-page''
     api_section = Inr \<lparr>score = 3, reasons = [''3 keyword hits in SDP section'']\<rparr> \<and>
   score_skill re_search json_dumps ''api-design'' repeated_keywords ''build-page  '' ''build-page''
     JNull = Inr \<lparr>score = 0, reasons = []\<rparr>"
  by code_simp

text \<open>
  Claim C6, amended. The number \<open>n\<close> that the density signal uses is the number of
  entries of the keyword list (positions, so a repeated keyword counts each time) whose
  lowered form is a substring of the lowered serialised payload; for a keyword list
  without repetition it is the number of distinct such keywords. The signal contributes
  \<open>n\<close> and one reason reporting \<open>n\<close> when the payload is truthy and \<open>n > 2\<close>, and nothing
  otherwise; the score of the scorer is the sum of the other four contributions and this
  one.
\<close>

theorem C6_density:
  "section_keyword_hits jd kws sdp =
     card {i. i < length kws \<and> (\<exists>pre suf. lower (jd sdp) = pre @ lower (kws ! i) @ suf)} \<and>
   (distinct kws \<longrightarrow>
      section_keyword_hits jd kws sdp =
        card {kw \<in> set kws. \<exists>pre suf. lower (jd sdp) = pre @ lower kw @ suf}) \<and>
   density_signal jd kws sdp =
     (if truthy sdp \<and> 2 < section_keyword_hits jd kws sdp
      then (int (section_keyword_hits jd kws sdp),
            [str_nat (section_keyword_hits jd kws sdp) @ '' keyword hits in SDP section''])
      else (0, [])) \<and>
   (score_skill rs jd name skill gt gn sdp = Inr r \<and> kws = trigger_list t_keywords skill \<longrightarrow>
      (\<exists>c2. pattern_signal rs (trigger_list t_goal_patterns skill) gn = Inr c2 \<and>
         score r = fst (keyword_signal kws gt) + fst c2 +
                   fst (file_type_signal jd (trigger_list t_file_types skill) sdp) +
                   fst (wildcard_signal (trigger_list t_section_types skill) gn) +
                   (if truthy sdp \<and> 2 < section_keyword_hits jd kws sdp
                    then int (section_keyword_hits jd kws sdp) else 0)))"
proof -
  have a: "section_keyword_hits jd kws sdp =
     card {i. i < length kws \<and> (\<exists>pre suf. lower (jd sdp) = pre @ lower (kws ! i) @ suf)}"
    by (simp add: section_keyword_hits_def length_filter_conv_card contains_iff)
  have b: "distinct kws \<longrightarrow> section_keyword_hits jd kws sdp =
        card {kw \<in> set kws. \<exists>pre suf. lower (jd sdp) = pre @ lower kw @ suf}"
    by (simp add: section_keyword_hits_def length_filter_distinct contains_iff)
  have c: "density_signal jd kws sdp =
     (if truthy sdp \<and> 2 < section_keyword_hits jd kws sdp
      then (int (section_keyword_hits jd kws sdp),
            [str_nat (section_keyword_hits jd kws sdp) @ '' keyword hits in SDP section''])
      else (0, []))"
    by (simp add: density_signal_def Let_def)
  have d: "score_skill rs jd name skill gt gn sdp = Inr r \<and> kws = trigger_list t_keywords skill \<longrightarrow>
      (\<exists>c2. pattern_signal rs (trigger_list t_goal_patterns skill) gn = Inr c2 \<and>
         score r = fst (keyword_signal kws gt) + fst c2 +
                   fst (file_type_signal jd (trigger_list t_file_types skill) sdp) +
                   fst (wildcard_signal (trigger_list t_section_types skill) gn) +
                   (if truthy sdp \<and> 2 < section_keyword_hits jd kws sdp
                    then int (section_keyword_hits jd kws sdp) else 0))"
  proof
    assume h: "score_skill rs jd name skill gt gn sdp = Inr r \<and> kws = trigger_list t_keywords skill"
    from score_skill_parts [of rs jd name skill gt gn sdp r] h
    obtain c2 where c2: "pattern_signal rs (trigger_list t_goal_patterns skill) gn = Inr c2"
      "score r = fst (keyword_signal kws gt) + fst c2 +
                 fst (file_type_signal jd (trigger_list t_file_types skill) sdp) +
                 fst (wildcard_signal (trigger_list t_section_types skill) gn) +
                 fst (density_signal jd kws sdp)"
      by auto
    have "fst (density_signal jd kws sdp) =
            (if truthy sdp \<and> 2 < section_keyword_hits jd kws sdp
             then int (section_keyword_hits jd kws sdp) else 0)"
      unfolding c by simp
    with c2 show "\<exists>c2. pattern_signal rs (trigger_list t_goal_patterns skill) gn = Inr c2 \<and>
         score r = fst (keyword_signal kws gt) + fst c2 +
                   fst (file_type_signal jd (trigger_list t_file_types skill) sdp) +
                   fst (wildcard_signal (trigger_list t_section_types skill) gn) +
                   (if truthy sdp \<and> 2 < section_keyword_hits jd kws sdp
                    then int (section_keyword_hits jd kws sdp) else 0)"
      by auto
  qed
  from a b c d show ?thesis by blast
qed

lemma rest_run:
  "score_skill re_search json_dumps ''api-design'' api_design ''build-orders  '' ''build-orders''
     rest_section = Inr \<lparr>score = 3, reasons = [''3 keyword hits in SDP section'']\<rparr>"
  by code_simp

lemma rest_facts:
  "distinct (trigger_list t_keywords api_design)"
  "truthy rest_section"
  "section_keyword_hits json_dumps (trigger_list t_keywords api_design) rest_section = 3"
  by code_simp+

theorem C6_density_witness:
  "distinct (trigger_list t_keywords api_design) \<and>
   score_skill re_search json_dumps ''api-design'' api_design ''build-orders  '' ''build-orders''
     rest_section = Inr \<lparr>score = 3, reasons = [''3 keyword hits in SDP section'']\<rparr> \<and>
   card {kw \<in> set (trigger_list t_keywords api_design).
           \<exists>pre suf. lower (json_dumps rest_section) = pre @ lower kw @ suf} = 3 \<and>
   density_signal json_dumps (trigger_list t_keywords api_design) rest_section =
     (3, [''3 keyword hits in SDP section''])"
proof -
  note t = C6_density [of json_dumps "trigger_list t_keywords api_design" rest_section
      re_search "''api-design''" api_design "''build-orders  ''" "''build-orders''"
      "\<lparr>score = 3, reasons = [''3 keyword hits in SDP section'']\<rparr>"]
  from t rest_facts(1) have "section_keyword_hits json_dumps (trigger_list t_keywords api_design)
      rest_section = card {kw \<in> set (trigger_list t_keywords api_design).
           \<exists>pre suf. lower (json_dumps rest_section) = pre @ lower kw @ suf}"
    by simp
  then have c: "card {kw \<in> set (trigger_list t_keywords api_design).
           \<exists>pre suf. lower (json_dumps rest_section) = pre @ lower kw @ suf} = 3"
    using rest_facts(3) by simp
  from t have "density_signal json_dumps (trigger_list t_keywords api_design) rest_section =
     (if truthy rest_section \<and>
         2 < section_keyword_hits json_dumps (trigger_list t_keywords api_design) rest_section
      then (int (section_keyword_hits json_dumps (trigger_list t_keywords api_design) rest_section),
            [str_nat (section_keyword_hits json_dumps (trigger_list t_keywords api_design)
                        rest_section) @ '' keyword hits in SDP section''])
      else (0, []))"
    by simp
  then have d: "density_signal json_dumps (trigger_list t_keywords api_design) rest_section =
     (3, [str_nat 3 @ '' keyword hits in SDP section''])"
    by (simp add: rest_facts)
  have "str_nat 3 = ''3''" by code_simp
  with d c rest_facts(1) rest_run show ?thesis by simp
qed

lemma empty_signals [simp]:
  "keyword_signal [] gt = (0, [])"
  "pattern_signal rs [] gn = Inr (0, [])"
  "file_type_signal jd [] sdp = (0, [])"
  "wildcard_signal [] gn = (0, [])"
  "density_signal jd [] sdp = (0, [])"
  by (simp_all add: keyword_signal_def keyword_hits_def pattern_signal_def file_type_signal_def
      wildcard_signal_def density_signal_def section_keyword_hits_def)

lemma signals_nonneg:
  "0 \<le> fst (keyword_signal kws gt)"
  "pattern_signal rs ps gn = Inr c2 \<Longrightarrow> 0 \<le> fst c2"
  "0 \<le> fst (file_type_signal jd fts sdp)"
  "0 \<le> fst (wildcard_signal sts gn)"
  "0 \<le> fst (density_signal jd kws sdp)"
  by (auto simp: keyword_signal_def pattern_signal_def file_type_signal_def
      wildcard_signal_def density_signal_def Let_def split: sum.splits option.splits)

lemma first_match_error:
  "first_match rs ps s = Inl e \<Longrightarrow> \<exists>p\<in>set ps. rs p s = Inl e"
  by (induction ps) (auto split: sum.splits if_splits)

lemma score_skill_error:
  "score_skill rs jd name skill gt gn sdp = Inl e \<Longrightarrow>
     \<exists>p\<in>set (trigger_list t_goal_patterns skill). rs p (lower gn) = Inl e"
proof -
  assume "score_skill rs jd name skill gt gn sdp = Inl e"
  then have "pattern_signal rs (trigger_list t_goal_patterns skill) gn = Inl e"
    by (auto simp: score_skill_def Let_def split: sum.splits)
  then have "first_match rs (trigger_list t_goal_patterns skill) (lower gn) = Inl e"
    by (auto simp: pattern_signal_def split: sum.splits option.splits)
  then show ?thesis by (rule first_match_error)
qed

lemma score_skill_nonneg:
  "score_skill rs jd name skill gt gn sdp = Inr r \<Longrightarrow> 0 \<le> score r"
proof -
  assume "score_skill rs jd name skill gt gn sdp = Inr r"
  from score_skill_parts [OF this] obtain c2 where
    c2: "pattern_signal rs (trigger_list t_goal_patterns skill) gn = Inr c2" and
    sc: "score r = fst (keyword_signal (trigger_list t_keywords skill) gt) + fst c2 +
                 fst (file_type_signal jd (trigger_list t_file_types skill) sdp) +
                 fst (wildcard_signal (trigger_list t_section_types skill) gn) +
                 fst (density_signal jd (trigger_list t_keywords skill) sdp)"
    by blast
  from signals_nonneg(2) [OF c2]
    signals_nonneg(1) [of "trigger_list t_keywords skill" gt]
    signals_nonneg(3) [of jd "trigger_list t_file_types skill" sdp]
    signals_nonneg(4) [of "trigger_list t_section_types skill" gn]
    signals_nonneg(5) [of jd "trigger_list t_keywords skill" sdp]
  show ?thesis unfolding sc by linarith
qed

lemma score_skill_cong:
  "trigger_list t_keywords s1 = trigger_list t_keywords s2 \<Longrightarrow>
   trigger_list t_goal_patterns s1 = trigger_list t_goal_patterns s2 \<Longrightarrow>
   trigger_list t_file_types s1 = trigger_list t_file_types s2 \<Longrightarrow>
   trigger_list t_section_types s1 = trigger_list t_section_types s2 \<Longrightarrow>
   score_skill rs jd n1 s1 gt gn sdp = score_skill rs jd n2 s2 gt gn sdp"
  by (simp add: score_skill_def Let_def cong: sum.case_cong)

text \<open>
  Claim C7. A skill without a trigger block scores 0 with no reason; a missing trigger
  category gives the same result as the empty list in its place; an empty category
  contributes nothing to its signal; without a payload the file-type and density signals
  contribute nothing; every score that the scorer returns is non-negative; the scorer
  raises only what the matcher raises on one of the skill's goal patterns; and a composite
  without triggers is skipped.
\<close>

theorem C7_missing_data:
  "(triggers skill = None \<longrightarrow>
      score_skill rs jd name skill gt gn sdp = Inr \<lparr>score = 0, reasons = []\<rparr>) \<and>
   (t_keywords t = None \<longrightarrow>
      score_skill rs jd name \<lparr>triggers = Some t, path = p\<rparr> gt gn sdp =
      score_skill rs jd name \<lparr>triggers = Some (t\<lparr>t_keywords := Some []\<rparr>), path = p\<rparr> gt gn sdp) \<and>
   (t_goal_patterns t = None \<longrightarrow>
      score_skill rs jd name \<lparr>triggers = Some t, path = p\<rparr> gt gn sdp =
      score_skill rs jd name \<lparr>triggers = Some (t\<lparr>t_goal_patterns := Some []\<rparr>), path = p\<rparr> gt gn sdp) \<and>
   (t_file_types t = None \<longrightarrow>
      score_skill rs jd name \<lparr>triggers = Some t, path = p\<rparr> gt gn sdp =
      score_skill rs jd name \<lparr>triggers = Some (t\<lparr>t_file_types := Some []\<rparr>), path = p\<rparr> gt gn sdp) \<and>
   (t_section_types t = None \<longrightarrow>
      score_skill rs jd name \<lparr>triggers = Some t, path = p\<rparr> gt gn sdp =
      score_skill rs jd name \<lparr>triggers = Some (t\<lparr>t_section_types := Some []\<rparr>), path = p\<rparr> gt gn sdp) \<and>
   keyword_signal [] gt = (0, []) \<and>
   pattern_signal rs [] gn = Inr (0, []) \<and>
   file_type_signal jd [] sdp = (0, []) \<and>
   wildcard_signal [] gn = (0, []) \<and>
   density_signal jd [] sdp = (0, []) \<and>
   file_type_signal jd fts JNull = (0, []) \<and>
   density_signal jd kws JNull = (0, []) \<and>
   (\<forall>r. score_skill rs jd name skill gt gn sdp = Inr r \<longrightarrow> 0 \<le> score r) \<and>
   (\<forall>e. score_skill rs jd name skill gt gn sdp = Inl e \<longrightarrow>
        (\<exists>pat\<in>set (trigger_list t_goal_patterns skill). rs pat (lower gn) = Inl e)) \<and>
   (c_triggers comp_def = None \<longrightarrow>
      detect_composite_skills rs gn gt ((comp_name, comp_def) # rest) =
      detect_composite_skills rs gn gt rest)"
proof -
  have a: "triggers skill = None \<longrightarrow>
      score_skill rs jd name skill gt gn sdp = Inr \<lparr>score = 0, reasons = []\<rparr>"
    by (simp add: score_skill_def trigger_list_def)
  have b: "t_keywords t = None \<longrightarrow>
      score_skill rs jd name \<lparr>triggers = Some t, path = p\<rparr> gt gn sdp =
      score_skill rs jd name \<lparr>triggers = Some (t\<lparr>t_keywords := Some []\<rparr>), path = p\<rparr> gt gn sdp"
    by (auto intro!: score_skill_cong simp: trigger_list_def get_list_def)
  have c: "t_goal_patterns t = None \<longrightarrow>
      score_skill rs jd name \<lparr>triggers = Some t, path = p\<rparr> gt gn sdp =
      score_skill rs jd name \<lparr>triggers = Some (t\<lparr>t_goal_patterns := Some []\<rparr>), path = p\<rparr> gt gn sdp"
    by (auto intro!: score_skill_cong simp: trigger_list_def get_list_def)
  have d: "t_file_types t = None \<longrightarrow>
      score_skill rs jd name \<lparr>triggers = Some t, path = p\<rparr> gt gn sdp =
      score_skill rs jd name \<lparr>triggers = Some (t\<lparr>t_file_types := Some []\<rparr>), path = p\<rparr> gt gn sdp"
    by (auto intro!: score_skill_cong simp: trigger_list_def get_list_def)
  have e: "t_section_types t = None \<longrightarrow>
      score_skill rs jd name \<lparr>triggers = Some t, path = p\<rparr> gt gn sdp =
      score_skill rs jd name \<lparr>triggers = Some (t\<lparr>t_section_types := Some []\<rparr>), path = p\<rparr> gt gn sdp"
    by (auto intro!: score_skill_cong simp: trigger_list_def get_list_def)
  have f: "\<forall>r. score_skill rs jd name skill gt gn sdp = Inr r \<longrightarrow> 0 \<le> score r"
    using score_skill_nonneg by blast
  have g: "\<forall>e. score_skill rs jd name skill gt gn sdp = Inl e \<longrightarrow>
        (\<exists>pat\<in>set (trigger_list t_goal_patterns skill). rs pat (lower gn) = Inl e)"
    using score_skill_error by blast
  have h: "c_triggers comp_def = None \<longrightarrow>
      detect_composite_skills rs gn gt ((comp_name, comp_def) # rest) =
      detect_composite_skills rs gn gt rest"
    by (auto simp: get_list_def split: sum.splits)
  from a b c d e f g h show ?thesis by simp
qed

theorem C7_missing_data_witness:
  "triggers no_triggers = None \<and>
   score_skill re_search json_dumps ''general'' no_triggers (goal_text_of build_inventory_crud)
     (g_name build_inventory_crud) rest_section = Inr \<lparr>score = 0, reasons = []\<rparr> \<and>
   score_skill re_search json_dumps ''testing'' testing (goal_text_of build_inventory_crud)
     (g_name build_inventory_crud) JNull = Inr \<lparr>score = 1, reasons = [''keywords: test'']\<rparr> \<and>
   0 \<le> score \<lparr>score = 1, reasons = [''keywords: test'']\<rparr>"
proof -
  have n: "triggers no_triggers = None" by (simp add: no_triggers_def)
  have r: "score_skill re_search json_dumps ''testing'' testing (goal_text_of build_inventory_crud)
     (g_name build_inventory_crud) JNull = Inr \<lparr>score = 1, reasons = [''keywords: test'']\<rparr>"
    by code_simp
  from C7_missing_data [of no_triggers re_search json_dumps "''general''"
      "goal_text_of build_inventory_crud" "g_name build_inventory_crud" rest_section] n
  have 1: "score_skill re_search json_dumps ''general'' no_triggers
     (goal_text_of build_inventory_crud) (g_name build_inventory_crud) rest_section
       = Inr \<lparr>score = 0, reasons = []\<rparr>"
    by blast
  from C7_missing_data [of testing re_search json_dumps "''testing''"
      "goal_text_of build_inventory_crud" "g_name build_inventory_crud" JNull] r
  have 2: "0 \<le> score \<lparr>score = 1, reasons = [''keywords: test'']\<rparr>"
    by blast
  from n r 1 2 show ?thesis by simp
qed

lemma falsy_signals:
  "\<not> truthy sdp \<Longrightarrow> file_type_signal jd fts sdp = (0, [])"
  "\<not> truthy sdp \<Longrightarrow> density_signal jd kws sdp = (0, [])"
  by (simp_all add: file_type_signal_def density_signal_def)

lemma falsy_score_skill:
  "\<not> truthy sdp \<Longrightarrow>
     score_skill rs jd name skill gt gn sdp = score_skill rs jd name skill gt gn JNull"
  by (simp add: score_skill_def falsy_signals Let_def cong: sum.case_cong)

lemma falsy_score_all:
  assumes "\<not> truthy sdp"
  shows "score_all rs jd gt gn sdp cfg = score_all rs jd gt gn JNull cfg"
proof (induction cfg)
  case Nil
  show ?case by simp
next
  case (Cons nd cfg)
  obtain n d where nd: "nd = (n, d)" by (cases nd)
  show ?case
    unfolding nd score_all.simps Cons.IH falsy_score_skill [OF assms, of rs jd n d gt gn] ..
qed

text \<open>
  Claim C10. The falsy payloads are \<^verbatim>\<open>None\<close>, \<^verbatim>\<open>false\<close>, 0, the empty string,
  the empty array and the empty object. On a falsy payload the file-type signal and the
  density signal contribute nothing, and the scorer and the resolver return what they
  return without a payload.
\<close>

theorem C10_falsy_payload:
  "(\<not> truthy sdp) = (sdp \<in> {JNull, JBool False, JInt 0, JStr [], JArr [], JObj []}) \<and>
   (\<not> truthy sdp \<longrightarrow>
      file_type_signal jd fts sdp = (0, []) \<and>
      density_signal jd kws sdp = (0, []) \<and>
      score_skill rs jd name skill gt gn sdp = score_skill rs jd name skill gt gn JNull \<and>
      assign_skills_to_goal rs jd gf reg sdp dry today =
        assign_skills_to_goal rs jd gf reg JNull dry today)"
proof -
  have a: "(\<not> truthy sdp) = (sdp \<in> {JNull, JBool False, JInt 0, JStr [], JArr [], JObj []})"
    by (cases sdp) simp_all
  have b: "assign_skills_to_goal rs jd gf reg sdp dry today =
        assign_skills_to_goal rs jd gf reg JNull dry today" if "\<not> truthy sdp"
    unfolding assign_skills_to_goal_def falsy_score_all [OF that] ..
  show ?thesis
    using a b falsy_signals [of sdp jd] falsy_score_skill [of sdp rs jd name skill gt gn]
    by blast
qed

theorem C10_falsy_payload_witness:
  "\<not> truthy (JObj []) \<and>
   section_keyword_hits json_dumps (trigger_list t_keywords brace_skill) (JObj []) = 3 \<and>
   score_skill re_search json_dumps ''braces'' brace_skill ''build-page  '' ''build-page'' (JObj [])
     = Inr \<lparr>score = 0, reasons = []\<rparr> \<and>
   density_signal json_dumps (trigger_list t_keywords brace_skill) (JObj []) = (0, [])"
proof -
  have f: "\<not> truthy (JObj [])" by simp
  have n: "section_keyword_hits json_dumps (trigger_list t_keywords brace_skill) (JObj []) = 3"
    by code_simp
  have z: "score_skill re_search json_dumps ''braces'' brace_skill ''build-page  '' ''build-page''
     JNull = Inr \<lparr>score = 0, reasons = []\<rparr>"
    by code_simp
  from C10_falsy_payload [of "JObj []" json_dumps "[]" "trigger_list t_keywords brace_skill"
      re_search "''braces''" brace_skill "''build-page  ''" "''build-page''"] f
  have "score_skill re_search json_dumps ''braces'' brace_skill ''build-page  '' ''build-page''
      (JObj []) = score_skill re_search json_dumps ''braces'' brace_skill ''build-page  ''
      ''build-page'' JNull \<and>
    density_signal json_dumps (trigger_list t_keywords brace_skill) (JObj []) = (0, [])"
    by blast
  with z have "score_skill re_search json_dumps ''braces'' brace_skill ''build-page  ''
      ''build-page'' (JObj []) = Inr \<lparr>score = 0, reasons = []\<rparr> \<and>
    density_signal json_dumps (trigger_list t_keywords brace_skill) (JObj []) = (0, [])"
    by simp
  with f n show ?thesis by simp
qed

lemma assign_assigned:
  "map_sum id (\<lambda>res. assigned_skills (fst res))
     (assign_skills_to_goal rs jd gf reg sdp dry today) =
   (case score_all rs jd (goal_text_of gf) (g_name gf) sdp (reg_skills reg) of
      Inl e \<Rightarrow> Inl e
    | Inr scores \<Rightarrow>
        (case detect_composite_skills rs (g_name gf) (goal_text_of gf) (reg_composites reg) of
           Inl e \<Rightarrow> Inl e
         | Inr ms \<Rightarrow> Inr (add_composites (reg_skills reg) ms
                           (primary_skills (reg_skills reg) scores))))"
  unfolding assign_skills_to_goal_def Let_def
  by (simp split: sum.splits)

text \<open>
  Claim C8. The list of assigned skills (or the error raised) is determined by the
  registry, the goal name, the goal text and the section payload: two runs that agree on
  these return the same list, whatever the dry-run flag, the date and the skills already
  written in the goal file.
\<close>

theorem C8_deterministic:
  "g_name gf1 = g_name gf2 \<and> goal_text_of gf1 = goal_text_of gf2 \<longrightarrow>
     map_sum id (\<lambda>res. assigned_skills (fst res))
       (assign_skills_to_goal rs jd gf1 reg sdp dry1 today1) =
     map_sum id (\<lambda>res. assigned_skills (fst res))
       (assign_skills_to_goal rs jd gf2 reg sdp dry2 today2)"
  unfolding assign_assigned by (simp cong: sum.case_cong)

theorem C8_deterministic_witness:
  "g_name build_inventory_crud = g_name assigned_before \<and>
   goal_text_of build_inventory_crud = goal_text_of assigned_before \<and>
   map_sum id (\<lambda>res. assigned_skills (fst res))
     (assign_skills_to_goal re_search json_dumps assigned_before example_registry JNull False
        ''2026-11-05'') = Inr (assigned_skills inventory_assignment)"
proof -
  have n: "g_name build_inventory_crud = g_name assigned_before"
    by (simp add: build_inventory_crud_def assigned_before_def)
  have t: "goal_text_of build_inventory_crud = goal_text_of assigned_before"
    by (simp add: goal_text_of_def build_inventory_crud_def assigned_before_def)
  from C8_deterministic [of build_inventory_crud assigned_before re_search json_dumps
      example_registry JNull True "''2026-11-04''" False "''2026-11-05''"] n t
  have "map_sum id (\<lambda>res. assigned_skills (fst res))
     (assign_skills_to_goal re_search json_dumps assigned_before example_registry JNull False
        ''2026-11-05'') =
     map_sum id (\<lambda>res. assigned_skills (fst res))
     (assign_skills_to_goal re_search json_dumps build_inventory_crud example_registry JNull True
        ''2026-11-04'')"
    by simp
  with n t show ?thesis by (simp add: inventory_run)
qed

section \<open>Properties of the summary\<close>

lemma bump_keys:
  "map fst (bump n cs) = (if n \<in> fst ` set cs then map fst cs else map fst cs @ [n])"
proof (induction cs)
  case Nil
  show ?case by simp
next
  case (Cons kc cs)
  obtain k c where kc: "kc = (k, c)" by (cases kc)
  show ?case
  proof (cases "k = n")
    case True
    then show ?thesis by (simp add: kc)
  next
    case False
    then show ?thesis using Cons.IH by (simp add: kc)
  qed
qed

lemma bump_key_set: "fst ` set (bump n cs) = insert n (fst ` set cs)"
proof -
  have "set (map fst (bump n cs)) = insert n (set (map fst cs))"
    unfolding bump_keys by auto
  then show ?thesis by simp
qed

lemma bump_map_of:
  "map_of (bump n cs) k =
     (if k = n then Some ((case map_of cs n of None \<Rightarrow> 0 | Some c \<Rightarrow> c) + 1) else map_of cs k)"
  by (induction cs) auto

lemma counts_keys:
  "fst ` set (foldl (\<lambda>counts name. bump name counts) cs ns) = fst ` set cs \<union> set ns"
  by (induction ns arbitrary: cs) (simp_all add: bump_key_set)

lemma counts_distinct:
  "distinct (map fst cs) \<Longrightarrow> distinct (map fst (foldl (\<lambda>counts name. bump name counts) cs ns))"
  by (induction ns arbitrary: cs) (simp_all add: bump_keys)

lemma counts_map_of:
  "map_of (foldl (\<lambda>counts name. bump name counts) cs ns) k =
     (case map_of cs k of
        None \<Rightarrow> if k \<in> set ns then Some (int (count_list ns k)) else None
      | Some c \<Rightarrow> Some (c + int (count_list ns k)))"
proof (induction ns arbitrary: cs)
  case Nil
  show ?case by (simp split: option.splits)
next
  case (Cons n ns)
  show ?case
    unfolding foldl_Cons Cons.IH [of "bump n cs"] bump_map_of
    by (auto split: option.splits)
qed

lemma skill_counts_mem:
  "((n, c) \<in> set (skill_counts assignments)) =
     (n \<in> set (concat (map (\<lambda>a. map a_name (assigned_skills a)) assignments)) \<and>
      c = int (count_list (concat (map (\<lambda>a. map a_name (assigned_skills a)) assignments)) n))"
proof -
  let ?ns = "concat (map (\<lambda>a. map a_name (assigned_skills a)) assignments)"
  have d: "distinct (map fst (skill_counts assignments))"
    unfolding skill_counts_def by (rule counts_distinct) simp
  have "((n, c) \<in> set (skill_counts assignments)) = (map_of (skill_counts assignments) n = Some c)"
    using d by simp
  also have "\<dots> = (n \<in> set ?ns \<and> c = int (count_list ?ns n))"
    unfolding skill_counts_def counts_map_of by auto
  finally show ?thesis .
qed

lemma count_list_distinct: "distinct xs \<Longrightarrow> count_list xs x = (if x \<in> set xs then 1 else 0)"
  by (induction xs) auto

lemma count_list_concat:
  "\<forall>xs\<in>set xss. distinct xs \<Longrightarrow>
     count_list (concat xss) x = length (filter (\<lambda>xs. x \<in> set xs) xss)"
  by (induction xss) (auto simp: count_list_distinct)

lemma count_goals:
  assumes "distinct (map goal assignments)"
  shows "length (filter P assignments) = card {goal a | a. a \<in> set assignments \<and> P a}"
proof -
  have da: "distinct (filter P assignments)"
    using assms by (simp add: distinct_map)
  have inj: "inj_on goal (set (filter P assignments))"
    using assms by (auto simp: distinct_map intro: inj_on_subset)
  have "{goal a | a. a \<in> set assignments \<and> P a} = goal ` set (filter P assignments)"
    by auto
  then have "card {goal a | a. a \<in> set assignments \<and> P a} = card (set (filter P assignments))"
    using inj by (simp add: card_image)
  also have "\<dots> = length (filter P assignments)"
    using da by (rule distinct_card)
  finally show ?thesis by simp
qed

lemma path_truthy_iff: "path_truthy p = (p \<noteq> None \<and> p \<noteq> Some [])"
  by (cases p) (simp_all add: path_truthy_def)

lemma has_file_iff:
  "has_file assignments n =
     (\<exists>a\<in>set assignments. \<exists>s\<in>set (assigned_skills a).
         a_name s = n \<and> a_path s \<noteq> None \<and> a_path s \<noteq> Some [])"
  unfolding has_file_def list_ex_iff path_truthy_iff by auto

lemma usage_summary_sorted:
  "sorted_wrt (\<lambda>x y. fst (snd y) \<le> fst (snd x)) (usage_summary assignments)"
proof -
  let ?f = "\<lambda>item :: string \<times> int. - snd item"
  have "sorted (map ?f (sort_key ?f (skill_counts assignments)))"
    by (rule sorted_sort_key)
  then have "sorted_wrt (\<lambda>x y. snd y \<le> snd x) (sort_key ?f (skill_counts assignments))"
    by (simp add: sorted_map)
  then show ?thesis
    by (simp add: usage_summary_def sorted_wrt_map)
qed

lemma usage_summary_names:
  "set (map fst (usage_summary assignments)) =
     (\<Union>a\<in>set assignments. set (map a_name (assigned_skills a)))"
  by (simp add: usage_summary_def comp_def skill_counts_def counts_keys)

lemma usage_summary_distinct: "distinct (map fst (usage_summary assignments))"
proof -
  have d: "distinct (map fst (skill_counts assignments))"
    unfolding skill_counts_def by (rule counts_distinct) simp
  then have "distinct (map fst (sort_key (\<lambda>item. - snd item) (skill_counts assignments)))"
    by (simp add: distinct_map)
  then show ?thesis by (simp add: usage_summary_def comp_def)
qed

lemma usage_summary_mem:
  "((n, c, f) \<in> set (usage_summary assignments)) =
     ((n, c) \<in> set (skill_counts assignments) \<and> f = has_file assignments n)"
  by (force simp: usage_summary_def image_iff)

text \<open>
  Claim C9 sets the flag of a skill when one of its occurrences carries a resolved path.
  A skill whose path in the registry is the empty string is assigned that path (and
  \<^verbatim>\<open>has_skill_file\<close> is true), but the summary tests the path for truthiness and
  leaves the flag false.
\<close>

theorem C9_counterexample:
  "assign_skills_to_goal re_search json_dumps build_dashboard empty_path_registry JNull True
     ''2026-11-04'' = Inr (empty_path_assignment, build_dashboard) \<and>
   map a_path (assigned_skills empty_path_assignment) = [Some []] \<and>
   map a_has_skill_file (assigned_skills empty_path_assignment) = [True] \<and>
   usage_summary [empty_path_assignment] = [(''frontend-design'', 1, False)]"
  by code_simp

text \<open>
  Claim C9, amended. For assignments of pairwise distinct goals, each without a repeated
  skill name, the summary has exactly one row for each skill name that occurs in an
  assignment; the count of a row is the number of distinct goals whose assignment includes
  the skill; its flag is true exactly when an occurrence of the skill has a path that is
  present and not the empty string; and the rows are in descending order of count.
\<close>

theorem C9_summary:
  assumes goals: "distinct (map goal assignments)"
      and names: "\<forall>a\<in>set assignments. distinct (map a_name (assigned_skills a))"
  shows "set (map fst (usage_summary assignments)) =
           (\<Union>a\<in>set assignments. set (map a_name (assigned_skills a))) \<and>
         distinct (map fst (usage_summary assignments)) \<and>
         (\<forall>n c f. (n, c, f) \<in> set (usage_summary assignments) \<longrightarrow>
            c = int (card {goal a | a. a \<in> set assignments \<and>
                                      n \<in> set (map a_name (assigned_skills a))}) \<and>
            f = (\<exists>a\<in>set assignments. \<exists>s\<in>set (assigned_skills a).
                   a_name s = n \<and> a_path s \<noteq> None \<and> a_path s \<noteq> Some [])) \<and>
         sorted_wrt (\<lambda>x y. fst (snd y) \<le> fst (snd x)) (usage_summary assignments)"
proof -
  have rows: "\<forall>n c f. (n, c, f) \<in> set (usage_summary assignments) \<longrightarrow>
            c = int (card {goal a | a. a \<in> set assignments \<and>
                                      n \<in> set (map a_name (assigned_skills a))}) \<and>
            f = (\<exists>a\<in>set assignments. \<exists>s\<in>set (assigned_skills a).
                   a_name s = n \<and> a_path s \<noteq> None \<and> a_path s \<noteq> Some [])"
  proof (intro allI impI)
    fix n c f
    assume "(n, c, f) \<in> set (usage_summary assignments)"
    then have c: "c = int (count_list
                     (concat (map (\<lambda>a. map a_name (assigned_skills a)) assignments)) n)"
      and f: "f = has_file assignments n"
      by (simp_all add: usage_summary_mem skill_counts_mem)
    have "\<forall>xs\<in>set (map (\<lambda>a. map a_name (assigned_skills a)) assignments). distinct xs"
      using names by simp
    from count_list_concat [OF this, of n]
    have "count_list (concat (map (\<lambda>a. map a_name (assigned_skills a)) assignments)) n =
          length (filter (\<lambda>a. n \<in> set (map a_name (assigned_skills a))) assignments)"
      by (simp add: filter_map comp_def)
    also have "\<dots> = card {goal a | a. a \<in> set assignments \<and>
                                      n \<in> set (map a_name (assigned_skills a))}"
      by (rule count_goals [OF goals])
    finally have "c = int (card {goal a | a. a \<in> set assignments \<and>
                                      n \<in> set (map a_name (assigned_skills a))})"
      using c by simp
    with f show "c = int (card {goal a | a. a \<in> set assignments \<and>
                                      n \<in> set (map a_name (assigned_skills a))}) \<and>
            f = (\<exists>a\<in>set assignments. \<exists>s\<in>set (assigned_skills a).
                   a_name s = n \<and> a_path s \<noteq> None \<and> a_path s \<noteq> Some [])"
      by (simp add: has_file_iff)
  qed
  from usage_summary_names usage_summary_distinct rows usage_summary_sorted
  show ?thesis by blast
qed

theorem C9_summary_witness:
  "distinct (map goal [inventory_assignment, dashboard_assignment]) \<and>
   distinct (map a_name (assigned_skills inventory_assignment)) \<and>
   distinct (map a_name (assigned_skills dashboard_assignment)) \<and>
   usage_summary [inventory_assignment, dashboard_assignment] =
     [(''frontend-design'', 2, True), (''api-design'', 1, False),
      (''database-design'', 1, False), (''caching'', 1, False)] \<and>
   sorted_wrt (\<lambda>x y. fst (snd y) \<le> fst (snd x))
     (usage_summary [inventory_assignment, dashboard_assignment])"
proof -
  have g: "distinct (map goal [inventory_assignment, dashboard_assignment])"
    by code_simp
  have n1: "distinct (map a_name (assigned_skills inventory_assignment))"
    by code_simp
  have n2: "distinct (map a_name (assigned_skills dashboard_assignment))"
    by code_simp
  from n1 n2 have n: "\<forall>a\<in>set [inventory_assignment, dashboard_assignment].
       distinct (map a_name (assigned_skills a))"
    by simp
  have u: "usage_summary [inventory_assignment, dashboard_assignment] =
     [(''frontend-design'', 2, True), (''api-design'', 1, False),
      (''database-design'', 1, False), (''caching'', 1, False)]"
    by code_simp
  from C9_summary [OF g n]
  have "sorted_wrt (\<lambda>x y. fst (snd y) \<le> fst (snd x))
     (usage_summary [inventory_assignment, dashboard_assignment])"
    by blast
  with g n1 n2 u show ?thesis by blast
qed

end
